theory Spec2Isabelle
  imports Complex_Main "HOL-Library.Char_ord" "HOL-Library.List_Lexorder"
begin

section \<open>The CUR conversion engine (package curconvert)\<close>

text \<open>
  Go strings of package curconvert are modelled as the sequence of runes that
  \<^verbatim>\<open>strings.Map\<close> and \<^verbatim>\<open>strings.ToLower\<close> range over: a list of code
  points. A string literal of the source is the list of the codes of its ASCII characters.
\<close>

type_synonym rune = nat
type_synonym gostring = "rune list"

definition asc :: "string \<Rightarrow> gostring" where
  "asc s = map of_char s"

datatype cur_error = ErrorsNew gostring

record CurConvert =
  sourceBucket :: gostring
  sourceObject :: gostring
  destBucket :: gostring
  destObject :: gostring
  destKMSKey :: gostring
  sourceArn :: gostring
  sourceExternalID :: gostring
  destArn :: gostring
  destExternalID :: gostring
  tempDir :: gostring
  concurrency :: int
  fileConcurrency :: int
  CurColumns :: "gostring list"
  CurFiles :: "gostring list"
  CurParqetFiles :: "gostring \<rightharpoonup> bool"
  CurColumnTypes :: "gostring \<rightharpoonup> gostring"
  skipCols :: "int \<rightharpoonup> bool"

text \<open>
  \<^verbatim>\<open>NewCurConvert\<close>: the fields the constructor does not assign hold Go's zero
  values (empty string, nil slice, nil map).
\<close>

definition NewCurConvert :: "gostring \<Rightarrow> gostring \<Rightarrow> gostring \<Rightarrow> gostring \<Rightarrow> CurConvert" where
  "NewCurConvert sBucket sObject dBucket dObject =
     \<lparr> sourceBucket = sBucket, sourceObject = sObject,
       destBucket = dBucket, destObject = dObject,
       destKMSKey = [], sourceArn = [], sourceExternalID = [],
       destArn = [], destExternalID = [],
       tempDir = asc ''/tmp'', concurrency = 10, fileConcurrency = 30,
       CurColumns = [], CurFiles = [], CurParqetFiles = Map.empty,
       CurColumnTypes =
         (((((((((((((Map.empty
           (asc ''lineitem/usageamount'' \<mapsto> asc ''DOUBLE''))
           (asc ''lineitem/normalizationfactor'' \<mapsto> asc ''DOUBLE''))
           (asc ''lineitem/normalizedusageamount'' \<mapsto> asc ''DOUBLE''))
           (asc ''lineitem/unblendedrate'' \<mapsto> asc ''DOUBLE''))
           (asc ''lineitem/unblendedcost'' \<mapsto> asc ''DOUBLE''))
           (asc ''lineitem/blendedrate'' \<mapsto> asc ''DOUBLE''))
           (asc ''lineitem/blendedcost'' \<mapsto> asc ''DOUBLE''))
           (asc ''pricing/publicondemandcost'' \<mapsto> asc ''DOUBLE''))
           (asc ''pricing/publicondemandrate'' \<mapsto> asc ''DOUBLE''))
           (asc ''reservation/normalizedunitsperreservation'' \<mapsto> asc ''DOUBLE''))
           (asc ''reservation/totalreservednormalizedunits'' \<mapsto> asc ''DOUBLE''))
           (asc ''reservation/totalreservedunits'' \<mapsto> asc ''DOUBLE''))
           (asc ''reservation/unitsperreservation'' \<mapsto> asc ''DOUBLE'')),
       skipCols = Map.empty \<rparr>"

text \<open>
  \<^verbatim>\<open>SetFileConcurrency\<close> returns the error (if any) together with the receiver
  as the call leaves it. The argument is a Go \<^verbatim>\<open>int\<close>; it is only compared, so
  an unbounded integer stands for it.
\<close>

definition SetFileConcurrency :: "CurConvert \<Rightarrow> int \<Rightarrow> cur_error option \<times> CurConvert" where
  "SetFileConcurrency c n =
     (if n < 1 \<or> n > 1000
      then (Some (ErrorsNew (asc ''File Concurrency must be between 1-1000'')), c)
      else (None, c\<lparr>fileConcurrency := n\<rparr>))"


subsection \<open>Parsing the manifest\<close>

text \<open>
  \<^verbatim>\<open>unicode.ToLower\<close> maps the ASCII capitals to their small letters and leaves
  the other ASCII runes alone; above ASCII it consults the Unicode case tables, which
  are the parameter \<open>ul\<close>. \<^verbatim>\<open>strings.ToLower\<close> applies it to every rune
  (its ASCII fast path computes the same string), and \<^verbatim>\<open>strings.Map\<close> applies
  its mapping to every rune (no rune is dropped: the mapping of \<^verbatim>\<open>ParseCur\<close>
  is never negative).
\<close>

definition unicode_ToLower :: "(rune \<Rightarrow> rune) \<Rightarrow> rune \<Rightarrow> rune" where
  "unicode_ToLower ul r =
     (if r \<le> 127 then (if 65 \<le> r \<and> r \<le> 90 then r + 32 else r) else ul r)"

definition strings_ToLower :: "(rune \<Rightarrow> rune) \<Rightarrow> gostring \<Rightarrow> gostring" where
  "strings_ToLower ul s = map (unicode_ToLower ul) s"

definition strings_Map :: "(rune \<Rightarrow> rune) \<Rightarrow> gostring \<Rightarrow> gostring" where
  "strings_Map f s = map f s"

text \<open>The closure \<^verbatim>\<open>r\<close> of \<^verbatim>\<open>ParseCur\<close>: a to z, 0 to 9 and the slash stay, every other rune becomes an underscore.\<close>

definition allowedRune :: "rune \<Rightarrow> rune" where
  "allowedRune r =
     (if r \<ge> 97 \<and> r \<le> 122 then r
      else if r \<ge> 48 \<and> r \<le> 57 then r
      else if r = 47 then r
      else 95)"

text \<open>A manifest column is the pair of its \<^verbatim>\<open>category\<close> and \<^verbatim>\<open>name\<close> strings.\<close>

type_synonym manifest_column = "gostring \<times> gostring"

record manifest =
  columns :: "manifest_column list"
  reportKeys :: "gostring list"

definition canonicalName :: "(rune \<Rightarrow> rune) \<Rightarrow> manifest_column \<Rightarrow> gostring" where
  "canonicalName ul t =
     (let columnName = fst t @ asc ''/'' @ snd t;
          columnName = strings_ToLower ul columnName
      in strings_Map allowedRune columnName)"

definition columnMetadata :: "gostring \<Rightarrow> gostring \<Rightarrow> gostring" where
  "columnMetadata columnName colType =
     asc ''name='' @ columnName @ asc '', type='' @ colType @ asc '', encoding=PLAIN_DICTIONARY''"

text \<open>
  The loop over the manifest columns. \<open>i\<close> is the counter of the source (it starts
  at -1 and is incremented on entry to the body), \<open>seen\<close> the local map of the names
  met so far.
\<close>

fun columnsLoop ::
  "(rune \<Rightarrow> rune) \<Rightarrow> manifest_column list \<Rightarrow> int \<Rightarrow> (gostring \<rightharpoonup> bool) \<Rightarrow> CurConvert \<Rightarrow> CurConvert" where
  "columnsLoop ul [] i seen c = c"
| "columnsLoop ul (t # cols) i seen c =
     (let i = i + 1;
          columnName = canonicalName ul t
      in if seen columnName \<noteq> None
         then columnsLoop ul cols i seen (c\<lparr>skipCols := (skipCols c)(i \<mapsto> True)\<rparr>)
         else
           (let colType = (case CurColumnTypes c columnName of
                             Some ty \<Rightarrow> ty
                           | None \<Rightarrow> asc ''UTF8'')
            in columnsLoop ul cols i (seen(columnName \<mapsto> True))
                 (c\<lparr>CurColumns := CurColumns c @ [columnMetadata columnName colType]\<rparr>)))"

text \<open>
  \<^verbatim>\<open>ParseCur\<close>. Its first argument after the case tables is what the download
  and the JSON decoding of the manifest gave: an error, or the manifest. The manifest
  is one whose \<^verbatim>\<open>columns\<close> and \<^verbatim>\<open>reportKeys\<close> have the JSON types the type
  assertions of the source expect (on any other the source panics).
\<close>

definition ParseCur ::
  "(rune \<Rightarrow> rune) \<Rightarrow> cur_error + manifest \<Rightarrow> CurConvert \<Rightarrow> cur_error option \<times> CurConvert" where
  "ParseCur ul fetched c =
     (case fetched of
        Inl err \<Rightarrow> (Some err, c)
      | Inr j \<Rightarrow>
          (let c = columnsLoop ul (columns j) (- 1) Map.empty (c\<lparr>skipCols := Map.empty\<rparr>)
           in (None, c\<lparr>CurFiles := CurFiles c @ reportKeys j\<rparr>)))"

section \<open>The tag attribution engine (costcli)\<close>

text \<open>
  The strings of the command-line tool are compared for equality, tested for emptiness,
  concatenated and sorted by \<^verbatim>\<open>sort.Strings\<close>, which orders them byte by byte:
  they are byte sequences, \<^typ>\<open>string\<close>, with the lexicographic order on lists
  over the order of the byte values.

  A Go map read at an absent key gives the zero value of the value type.
  A \<^verbatim>\<open>float64\<close> is the real number it stands for (infinities and NaN are not
  modelled). Sums are exact. The quotient and the product by the constant 0.01 in the
  report are rounded to \<^verbatim>\<open>float64\<close> as the machine rounds them: the cent amounts
  that are printed depend on it.
\<close>

type_synonym row = "string \<rightharpoonup> string"

definition getv :: "row \<Rightarrow> string \<Rightarrow> string" where
  "getv m k = (case m k of None \<Rightarrow> [] | Some v \<Rightarrow> v)"

definition getf :: "(string \<rightharpoonup> real) \<Rightarrow> string \<Rightarrow> real" where
  "getf m k = (case m k of None \<Rightarrow> 0 | Some v \<Rightarrow> v)"

text \<open>
  The records of the configuration. The struct \<^verbatim>\<open>Map\<close> of the source is
  \<open>Map_rule\<close>, and the rule list of a tag axis (field \<^verbatim>\<open>Map\<close> of
  \<^verbatim>\<open>TagMap\<close>) is \<open>Map_rules\<close>; the fields \<^verbatim>\<open>TagMap\<close> and \<^verbatim>\<open>Tags\<close> of
  \<^verbatim>\<open>Config\<close> are \<open>TagMap_list\<close> and \<open>Tags_sql\<close>.
\<close>

record Map_rule =
  Value :: string
  Match :: "string list"
  Regex :: "string list"

record TagMap =
  Tags :: "string list"
  Map_rules :: "Map_rule list"
  Name :: string

record Config =
  TagMap_list :: "TagMap list"
  TagBlacklist :: "string \<rightharpoonup> string list"
  Sql :: "string \<rightharpoonup> string"
  Tags_sql :: string
  Database :: string
  Table :: string
  Account :: string

record AthenaResponse =
  Rows :: "row list"

record Results =
  tagCosts :: "string \<rightharpoonup> real"
  total :: real

subsection \<open>The tag resolver\<close>

text \<open>
  \<^verbatim>\<open>regexp.Compile\<close> is a parameter: it gives no matcher for a pattern that
  does not compile, and otherwise the predicate \<^verbatim>\<open>MatchString\<close> of the compiled
  pattern.
\<close>

type_synonym regexp_Compile = "string \<Rightarrow> (string \<Rightarrow> bool) option"

datatype tag_error = NoMatch

fun findExact :: "string \<Rightarrow> string list \<Rightarrow> bool" where
  "findExact value [] = False"
| "findExact value (v # list) = (if v = value then True else findExact value list)"

fun findRegex :: "regexp_Compile \<Rightarrow> string \<Rightarrow> string list \<Rightarrow> bool" where
  "findRegex re value [] = False"
| "findRegex re value (v # list) =
     (case re v of
        None \<Rightarrow> findRegex re value list
      | Some r \<Rightarrow> if r value then True else findRegex re value list)"

text \<open>The two loops of \<^verbatim>\<open>findTagMatch\<close> over the rules; each returns the value of the rule at which it returns.\<close>

fun exactLoop :: "string \<Rightarrow> Map_rule list \<Rightarrow> string option" where
  "exactLoop match [] = None"
| "exactLoop match (object # m) =
     (if findExact match (Match object) then Some (Value object) else exactLoop match m)"

fun regexLoop :: "regexp_Compile \<Rightarrow> string \<Rightarrow> Map_rule list \<Rightarrow> string option" where
  "regexLoop re match [] = None"
| "regexLoop re match (object # m) =
     (if findRegex re match (Regex object) then Some (Value object) else regexLoop re match m)"

definition findTagMatch ::
  "regexp_Compile \<Rightarrow> string \<Rightarrow> Map_rule list \<Rightarrow> string \<Rightarrow> (string \<rightharpoonup> string list) \<Rightarrow> tag_error + string" where
  "findTagMatch re match m tag blacklist =
     (case exactLoop match m of
        Some v \<Rightarrow> Inr v
      | None \<Rightarrow>
          (case regexLoop re match m of
             Some v \<Rightarrow> Inr v
           | None \<Rightarrow>
               (if (case blacklist tag of
                      Some tagblacklist \<Rightarrow> findRegex re match tagblacklist
                    | None \<Rightarrow> False)
                then Inl NoMatch
                else if length match > 0 then Inr match
                else Inl NoMatch)))"

subsection \<open>Aggregation\<close>

text \<open>\<^verbatim>\<open>strconv.ParseFloat\<close> is a parameter: the value of a string that parses, or nothing.\<close>

type_synonym strconv_ParseFloat = "string \<Rightarrow> real option"

fun strings_Join :: "string list \<Rightarrow> string \<Rightarrow> string" where
  "strings_Join [] sep = []"
| "strings_Join [a] sep = a"
| "strings_Join (a # b # elems) sep = a @ sep @ strings_Join (b # elems) sep"

text \<open>The loop over the candidate columns of one axis: the match at which it breaks, or nothing when it runs to the end.\<close>

fun tagsLoop ::
  "regexp_Compile \<Rightarrow> (string \<rightharpoonup> string list) \<Rightarrow> row \<Rightarrow> Map_rule list \<Rightarrow> string list \<Rightarrow> string option" where
  "tagsLoop re blacklist row m [] = None"
| "tagsLoop re blacklist row m (tg # tgs) =
     (case findTagMatch re (getv row tg) m tg blacklist of
        Inr match \<Rightarrow> Some match
      | Inl err \<Rightarrow> tagsLoop re blacklist row m tgs)"

text \<open>The loop over the axes, appending one label per axis to \<open>tags\<close>.\<close>

fun tagMapLoop ::
  "regexp_Compile \<Rightarrow> (string \<rightharpoonup> string list) \<Rightarrow> row \<Rightarrow> TagMap list \<Rightarrow> string list \<Rightarrow> string list" where
  "tagMapLoop re blacklist row [] tags = tags"
| "tagMapLoop re blacklist row (tm # tms) tags =
     (case tagsLoop re blacklist row (Map_rules tm) (Tags tm) of
        Some match \<Rightarrow> tagMapLoop re blacklist row tms (tags @ [match])
      | None \<Rightarrow> tagMapLoop re blacklist row tms (tags @ [''Untagged'']))"

definition rowTags :: "regexp_Compile \<Rightarrow> Config \<Rightarrow> row \<Rightarrow> string list" where
  "rowTags re c row = tagMapLoop re (TagBlacklist c) row (TagMap_list c) [getv row ''service'']"

fun resultRowsLoop ::
  "regexp_Compile \<Rightarrow> strconv_ParseFloat \<Rightarrow> Config \<Rightarrow> row list \<Rightarrow> Results \<Rightarrow> Results" where
  "resultRowsLoop re pf c [] r = r"
| "resultRowsLoop re pf c (row # rows) r =
     (case pf (getv row ''cost'') of
        None \<Rightarrow> resultRowsLoop re pf c rows r
      | Some f \<Rightarrow>
          (let key = strings_Join (rowTags re c row) '','' in
           resultRowsLoop re pf c rows
             (r\<lparr>tagCosts := (tagCosts r)(key \<mapsto> getf (tagCosts r) key + f),
                total := total r + f\<rparr>)))"

definition processResults ::
  "regexp_Compile \<Rightarrow> strconv_ParseFloat \<Rightarrow> AthenaResponse \<Rightarrow> Config \<Rightarrow> Results" where
  "processResults re pf resp c =
     resultRowsLoop re pf c (Rows resp) \<lparr>tagCosts = Map.empty, total = 0\<rparr>"

subsection \<open>Rounding to float64\<close>

text \<open>
  The result of a \<^verbatim>\<open>float64\<close> operation is the exact result rounded to the nearest
  number with a 53-bit significand, ties to the even significand. \<open>exponent64\<close> is
  the binary exponent of the binade of \<open>x\<close>, found by halving or doubling and not
  below -1022 (below that exponent the numbers are subnormal and keep the spacing of the
  lowest binade); results beyond the largest \<^verbatim>\<open>float64\<close> (overflow to infinity) are
  not modelled.
\<close>

definition round_half_even :: "real \<Rightarrow> int" where
  "round_half_even x =
     (let f = \<lfloor>x\<rfloor>; d = x - of_int f
      in if d < 1 / 2 then f
         else if d > 1 / 2 then f + 1
         else if even f then f else f + 1)"

fun exponent_up :: "nat \<Rightarrow> real \<Rightarrow> int \<Rightarrow> int" where
  "exponent_up 0 x e = e"
| "exponent_up (Suc n) x e = (if x \<ge> 2 then exponent_up n (x / 2) (e + 1) else e)"

fun exponent_down :: "nat \<Rightarrow> real \<Rightarrow> int \<Rightarrow> int" where
  "exponent_down 0 x e = e"
| "exponent_down (Suc n) x e = (if x < 1 then exponent_down n (x * 2) (e - 1) else e)"

definition exponent64 :: "real \<Rightarrow> int" where
  "exponent64 x =
     (if \<bar>x\<bar> \<ge> 1 then exponent_up 1023 \<bar>x\<bar> 0 else exponent_down 1022 \<bar>x\<bar> 0)"

definition pow2 :: "int \<Rightarrow> real" where
  "pow2 e = (if e \<ge> 0 then 2 ^ nat e else 1 / 2 ^ nat (- e))"

definition float64 :: "real \<Rightarrow> real" where
  "float64 x =
     (let ulp = pow2 (exponent64 x - 52)
      in of_int (round_half_even (x / ulp)) * ulp)"

definition f64_div :: "real \<Rightarrow> real \<Rightarrow> real" where
  "f64_div x y = float64 (x / y)"

definition f64_mul :: "real \<Rightarrow> real \<Rightarrow> real" where
  "f64_mul x y = float64 (x * y)"

subsection \<open>The report\<close>

text \<open>
  \<^verbatim>\<open>math.Round\<close> rounds to the nearest integer, halves away from zero; its result
  is exact. The constant \<^verbatim>\<open>0.01\<close> of the source is the \<^verbatim>\<open>float64\<close> nearest to
  one hundredth.
\<close>

definition math_Round :: "real \<Rightarrow> real" where
  "math_Round x = (if x < 0 then - of_int \<lfloor>- x + 1 / 2\<rfloor> else of_int \<lfloor>x + 1 / 2\<rfloor>)"

fun tagNamesLoop :: "TagMap list \<Rightarrow> string \<Rightarrow> string" where
  "tagNamesLoop [] tagNames = tagNames"
| "tagNamesLoop (v # vs) tagNames = tagNamesLoop vs (tagNames @ [CHR 0x22] @ Name v @ [CHR 0x22] @ '','')"

text \<open>
  The expression \<^verbatim>\<open>math.Round(x/0.01)*0.01\<close>, which \<^verbatim>\<open>printResults\<close> applies to
  the cost of every key and to the total.
\<close>

definition roundCents :: "real \<Rightarrow> real" where
  "roundCents x = f64_mul (math_Round (f64_div x (float64 (1 / 100)))) (float64 (1 / 100))"

text \<open>The loop over the sorted keys: the arguments of each \<^verbatim>\<open>Printf\<close> it makes, in order.\<close>

fun printLoop :: "(string \<rightharpoonup> real) \<Rightarrow> string list \<Rightarrow> (string \<times> real) list" where
  "printLoop costs [] = []"
| "printLoop costs (k # keys) =
     (if roundCents (getf costs k) > float64 (1 / 100)
      then (k, roundCents (getf costs k)) # printLoop costs keys
      else printLoop costs keys)"

text \<open>
  \<^verbatim>\<open>printResults\<close>: the strings written to standard output, one per call of
  \<^verbatim>\<open>Println\<close> or \<^verbatim>\<open>Printf\<close>. The parameter \<open>fmt2\<close> is the rendering of a
  \<^verbatim>\<open>float64\<close> by the verb \<^verbatim>\<open>%.2f\<close>. The parameter \<open>order\<close> is the order
  in which \<^verbatim>\<open>range r.tagCosts\<close> visits the keys of the map on this run: Go leaves
  it unspecified, and visits every key once.
\<close>

definition printResults :: "(real \<Rightarrow> string) \<Rightarrow> string list \<Rightarrow> Results \<Rightarrow> Config \<Rightarrow> string list" where
  "printResults fmt2 order r c =
     (let keys = order;
          tagNames = tagNamesLoop (TagMap_list c) [];
          keys = sort keys
      in [[CHR 0x22] @ ''service'' @ [CHR 0x22] @ '','' @ tagNames @ [CHR 0x22] @ ''amount'' @ [CHR 0x22] @ [CHR 0x0A]]
         @ map (\<lambda>(k, a). k @ '','' @ fmt2 a @ [CHR 0x0A]) (printLoop (tagCosts r) keys)
         @ [''---------------------'' @ [CHR 0x0A],
            ''Total: '' @ fmt2 (roundCents (total r))])"

subsection \<open>The query driver\<close>

text \<open>
  The Athena client is a parameter. For the request that \<^verbatim>\<open>sendQuery\<close> builds it
  gives: the answer to \<^verbatim>\<open>StartQueryExecution\<close> (an error message, or the execution
  id); the answer to each call of \<^verbatim>\<open>GetQueryExecution\<close>, numbered from 0 (an error
  message, or the fields \<^verbatim>\<open>State\<close> and \<^verbatim>\<open>StateChangeReason\<close> of the status, each a
  pointer that may be nil); the pages that \<^verbatim>\<open>GetQueryResultsPages\<close> hands to the
  callback, each a list of rows, each row the list of the \<^verbatim>\<open>VarCharValue\<close> pointers of
  its fields; and the error that \<^verbatim>\<open>GetQueryResultsPages\<close> returns in the end, if any.
\<close>

record StartQueryExecutionInput =
  QueryString :: string
  QueryDatabase :: string
  OutputLocation :: string

datatype GetQueryExecutionResult =
    GetQueryExecutionFails string
  | GetQueryExecutionOutput "string option" "string option"

record QueryExecution =
  StartQueryExecution :: "string + string"
  GetQueryExecution :: "nat \<Rightarrow> GetQueryExecutionResult"
  ResultPages :: "string option list list list"
  GetQueryResultsPagesErr :: "string option"

type_synonym athena = "StartQueryExecutionInput \<Rightarrow> QueryExecution"

datatype query_error =
    StartQueryExecutionError string
  | GetQueryExecutionError string
  | QueryStateError string string
  | GetQueryResultsPagesError string

text \<open>A call returns, or panics on a nil pointer.\<close>

datatype 'a outcome = Returns 'a | Panics

definition queryInput :: "string \<Rightarrow> string \<Rightarrow> string \<Rightarrow> string \<Rightarrow> string \<Rightarrow> StartQueryExecutionInput" where
  "queryInput db sql account region s3ResultsLocation =
     \<lparr> QueryString = sql, QueryDatabase = db,
       OutputLocation =
         (if length s3ResultsLocation > 1 then s3ResultsLocation
          else ''s3://aws-athena-query-results-'' @ account @ ''-'' @ region @ ''/'') \<rparr>"

text \<open>
  The polling loop. \<open>n\<close> counts the calls of \<^verbatim>\<open>GetQueryExecution\<close> made so far and
  \<open>slept\<close> the seconds spent in \<^verbatim>\<open>time.Sleep\<close>. The loop leaves with the error of
  the call, or with the state and reason of the last status; it has no bound, so it is a
  partial function: no value when the status is RUNNING for ever.
\<close>

partial_function (option) pollLoop ::
  "(nat \<Rightarrow> GetQueryExecutionResult) \<Rightarrow> nat \<Rightarrow> nat
     \<Rightarrow> ((query_error + string \<times> string option) outcome \<times> nat \<times> nat) option" where
  "pollLoop gqe n slept =
     (case gqe n of
        GetQueryExecutionFails err \<Rightarrow> Some (Returns (Inl (GetQueryExecutionError err)), n, slept)
      | GetQueryExecutionOutput st reason \<Rightarrow>
          (case st of
             None \<Rightarrow> Some (Panics, n, slept)
           | Some s \<Rightarrow>
               if s \<noteq> ''RUNNING'' then Some (Returns (Inr (s, reason)), n, slept)
               else pollLoop gqe (Suc n) (slept + 2)))"

text \<open>The header row: every field is dereferenced.\<close>

fun headerLoop :: "string option list \<Rightarrow> string list \<Rightarrow> string list outcome" where
  "headerLoop [] colNames = Returns colNames"
| "headerLoop (d # ds) colNames =
     (case d of
        None \<Rightarrow> Panics
      | Some v \<Rightarrow> headerLoop ds (colNames @ [v]))"

text \<open>A data row: the loop over its fields from index \<open>j\<close> on, giving the map built and the flag \<^verbatim>\<open>skip\<close>.\<close>

fun dataLoop :: "string list \<Rightarrow> string option list \<Rightarrow> nat \<Rightarrow> row \<Rightarrow> row \<times> bool" where
  "dataLoop colNames [] j result = (result, False)"
| "dataLoop colNames (d # ds) j result =
     (if j < length colNames
      then (case d of
              None \<Rightarrow> (result, True)
            | Some v \<Rightarrow> dataLoop colNames ds (Suc j) (result(colNames ! j \<mapsto> v)))
      else dataLoop colNames ds (Suc j) result)"

text \<open>The rows of one page; \<open>colNames\<close> and the rows collected so far live across pages.\<close>

fun pageRowsLoop ::
  "string option list list \<Rightarrow> string list \<Rightarrow> row list \<Rightarrow> (string list \<times> row list) outcome" where
  "pageRowsLoop [] colNames rows = Returns (colNames, rows)"
| "pageRowsLoop (data # rest) colNames rows =
     (if length colNames < 1
      then (case headerLoop data colNames of
              Panics \<Rightarrow> Panics
            | Returns colNames' \<Rightarrow> pageRowsLoop rest colNames' rows)
      else (case dataLoop colNames data 0 Map.empty of
              (result, skip) \<Rightarrow>
                if result \<noteq> Map.empty \<and> \<not> skip
                then pageRowsLoop rest colNames (rows @ [result])
                else pageRowsLoop rest colNames rows))"

fun pagesLoop ::
  "string option list list list \<Rightarrow> string list \<Rightarrow> row list \<Rightarrow> (string list \<times> row list) outcome" where
  "pagesLoop [] colNames rows = Returns (colNames, rows)"
| "pagesLoop (page # pages) colNames rows =
     (case pageRowsLoop page colNames rows of
        Panics \<Rightarrow> Panics
      | Returns (colNames', rows') \<Rightarrow> pagesLoop pages colNames' rows')"

text \<open>
  \<^verbatim>\<open>sendQuery\<close>: no value when the polling never ends; otherwise a panic, or the two
  values the Go function returns (the response, and the error or nil).
\<close>

definition sendQuery ::
  "athena \<Rightarrow> string \<Rightarrow> string \<Rightarrow> string \<Rightarrow> string \<Rightarrow> string
     \<Rightarrow> (AthenaResponse \<times> query_error option) outcome option" where
  "sendQuery svc db sql account region s3ResultsLocation =
     (let results = \<lparr>Rows = []\<rparr>;
          ex = svc (queryInput db sql account region s3ResultsLocation)
      in case StartQueryExecution ex of
           Inl err \<Rightarrow> Some (Returns (results, Some (StartQueryExecutionError err)))
         | Inr queryExecutionId \<Rightarrow>
             (case pollLoop (GetQueryExecution ex) 0 0 of
                None \<Rightarrow> None
              | Some (Panics, n, slept) \<Rightarrow> Some Panics
              | Some (Returns (Inl err), n, slept) \<Rightarrow> Some (Returns (results, Some err))
              | Some (Returns (Inr (state, reason)), n, slept) \<Rightarrow>
                  if state \<noteq> ''SUCCEEDED''
                  then (case reason of
                          None \<Rightarrow> Some Panics
                        | Some why \<Rightarrow> Some (Returns (results, Some (QueryStateError state why))))
                  else (case pagesLoop (ResultPages ex) [] (Rows results) of
                          Panics \<Rightarrow> Some Panics
                        | Returns (colNames, rows) \<Rightarrow>
                            (case GetQueryResultsPagesErr ex of
                               Some err \<Rightarrow>
                                 Some (Returns (\<lparr>Rows = rows\<rparr>, Some (GetQueryResultsPagesError err)))
                             | None \<Rightarrow> Some (Returns (\<lparr>Rows = rows\<rparr>, None))))))"

subsection \<open>Redistribution of the reserved-instance fees\<close>

fun riCostLoop :: "strconv_ParseFloat \<Rightarrow> row list \<Rightarrow> (string \<rightharpoonup> real) \<Rightarrow> (string \<rightharpoonup> real)" where
  "riCostLoop pf [] riCostPerService = riCostPerService"
| "riCostLoop pf (row # rows) riCostPerService =
     (case pf (getv row ''cost'') of
        None \<Rightarrow> riCostLoop pf rows riCostPerService
      | Some f \<Rightarrow> riCostLoop pf rows (riCostPerService(getv row ''service'' \<mapsto> f)))"

text \<open>
  Both loops over the usage rows take the \<^verbatim>\<open>normalized_amount\<close> of the row when it
  parses and is positive, and otherwise its \<^verbatim>\<open>amount\<close> when that parses and is
  positive: \<open>usageAmount\<close> is this choice, nothing when neither holds.
\<close>

definition usageAmount :: "strconv_ParseFloat \<Rightarrow> row \<Rightarrow> real option" where
  "usageAmount pf row =
     (case pf (getv row ''normalized_amount'') of
        Some f \<Rightarrow>
          if f > 0 then Some f
          else (case pf (getv row ''amount'') of
                  Some f \<Rightarrow> if f > 0 then Some f else None
                | None \<Rightarrow> None)
      | None \<Rightarrow>
          (case pf (getv row ''amount'') of
             Some f \<Rightarrow> if f > 0 then Some f else None
           | None \<Rightarrow> None))"

fun riUsageLoop :: "strconv_ParseFloat \<Rightarrow> row list \<Rightarrow> (string \<rightharpoonup> real) \<Rightarrow> (string \<rightharpoonup> real)" where
  "riUsageLoop pf [] riUsagePerService = riUsagePerService"
| "riUsageLoop pf (row # rows) riUsagePerService =
     (case usageAmount pf row of
        Some f \<Rightarrow>
          riUsageLoop pf rows
            (riUsagePerService(getv row ''service'' \<mapsto> getf riUsagePerService (getv row ''service'') + f))
      | None \<Rightarrow> riUsageLoop pf rows riUsagePerService)"

text \<open>
  The local \<^verbatim>\<open>cost\<close> of the last loop, for the rows in which the loop assigns it.
  The share is computed exactly here: the property of the redistribution is one up to
  the rounding of the machine operations.
\<close>

definition syntheticCost ::
  "strconv_ParseFloat \<Rightarrow> (string \<rightharpoonup> real) \<Rightarrow> (string \<rightharpoonup> real) \<Rightarrow> row \<Rightarrow> real option" where
  "syntheticCost pf riUsagePerService riCostPerService row =
     (case usageAmount pf row of
        Some f \<Rightarrow>
          Some ((f / getf riUsagePerService (getv row ''service''))
                * getf riCostPerService (getv row ''service''))
      | None \<Rightarrow> None)"

text \<open>The parameter \<open>fmtE\<close> is \<^verbatim>\<open>strconv.FormatFloat\<close> with format E and precision -1.\<close>

fun riRowsLoop ::
  "strconv_ParseFloat \<Rightarrow> (real \<Rightarrow> string) \<Rightarrow> (string \<rightharpoonup> real) \<Rightarrow> (string \<rightharpoonup> real)
     \<Rightarrow> row list \<Rightarrow> row list \<Rightarrow> row list" where
  "riRowsLoop pf fmtE riUsagePerService riCostPerService [] tagRows = tagRows"
| "riRowsLoop pf fmtE riUsagePerService riCostPerService (row # rows) tagRows =
     (let row' = (case syntheticCost pf riUsagePerService riCostPerService row of
                    Some cost \<Rightarrow> row(''cost'' \<mapsto> fmtE cost)
                  | None \<Rightarrow> row)
      in riRowsLoop pf fmtE riUsagePerService riCostPerService rows (tagRows @ [row']))"

text \<open>
  \<^verbatim>\<open>processRIUsage\<close>. The arguments \<open>riCost\<close> and \<open>riUsage\<close> are what the two calls
  of \<^verbatim>\<open>sendQuery\<close> returned (the response, and the error or nil).
\<close>

definition processRIUsage ::
  "strconv_ParseFloat \<Rightarrow> (real \<Rightarrow> string) \<Rightarrow> AthenaResponse \<times> query_error option
     \<Rightarrow> AthenaResponse \<times> query_error option \<Rightarrow> AthenaResponse
     \<Rightarrow> AthenaResponse \<times> query_error option" where
  "processRIUsage pf fmtE riCost riUsage tagCost =
     (case snd riCost of
        Some err \<Rightarrow> (tagCost, Some err)
      | None \<Rightarrow>
          (let riCostPerService = riCostLoop pf (Rows (fst riCost)) Map.empty
           in case snd riUsage of
                Some err \<Rightarrow> (tagCost, Some err)
              | None \<Rightarrow>
                  (let riUsagePerService = riUsageLoop pf (Rows (fst riUsage)) Map.empty
                   in (tagCost\<lparr>Rows := riRowsLoop pf fmtE riUsagePerService riCostPerService
                                          (Rows (fst riUsage)) (Rows tagCost)\<rparr>,
                       None))))"

section \<open>Auxiliary functions of the proofs\<close>

text \<open>The elements of a list that are not in \<open>S\<close> and occur for the first time, in order.\<close>

fun firsts :: "'a set \<Rightarrow> 'a list \<Rightarrow> 'a list" where
  "firsts S [] = []"
| "firsts S (x # xs) = (if x \<in> S then firsts S xs else x # firsts (insert x S) xs)"


text \<open>
  A sample of \<^verbatim>\<open>regexp.Compile\<close> for the examples: the pattern \<^verbatim>\<open>alpha.*\<close>
  matches the strings that contain \<^verbatim>\<open>alpha\<close>, the pattern \<^verbatim>\<open>^i-\<close> the strings
  that start with \<^verbatim>\<open>i-\<close>; the sample compiles no other pattern (Go rejects the
  pattern \<^verbatim>\<open>(\<close>, the only other one the examples use).
\<close>

fun hasPrefix :: "string \<Rightarrow> string \<Rightarrow> bool" where
  "hasPrefix [] s = True"
| "hasPrefix (p # ps) [] = False"
| "hasPrefix (p # ps) (c # cs) = (p = c \<and> hasPrefix ps cs)"

fun containsStr :: "string \<Rightarrow> string \<Rightarrow> bool" where
  "containsStr p [] = hasPrefix p []"
| "containsStr p (c # cs) = (hasPrefix p (c # cs) \<or> containsStr p cs)"

definition sampleRegexp :: regexp_Compile where
  "sampleRegexp p =
     (if p = ''alpha.*'' then Some (containsStr ''alpha'')
      else if p = ''^i-'' then Some (hasPrefix ''i-'')
      else None)"

text \<open>A sample of \<^verbatim>\<open>strconv.ParseFloat\<close> on the decimal strings of the examples, and a sample configuration with one axis.\<close>

definition sampleParseFloat :: strconv_ParseFloat where
  "sampleParseFloat s =
     (if s = ''0'' then Some 0
      else if s = ''1'' then Some 1
      else if s = ''0.006'' then Some (float64 (6 / 1000))
      else if s = ''30'' then Some 30
      else if s = ''70'' then Some 70
      else if s = ''100'' then Some 100
      else None)"

definition sampleConfig :: Config where
  "sampleConfig =
     \<lparr> TagMap_list =
         [\<lparr>Tags = [''env'', ''name''],
           Map_rules = [\<lparr>Value = ''Q'', Match = [''alphabet''], Regex = [''alpha.*'']\<rparr>],
           Name = ''Env''\<rparr>],
       TagBlacklist = [''env'' \<mapsto> [''^i-'']],
       Sql = Map.empty, Tags_sql = [], Database = [], Table = [], Account = [] \<rparr>"

text \<open>A sample of the verb \<^verbatim>\<open>%.2f\<close> on the amounts of the examples.\<close>

definition sampleFmt2 :: "real \<Rightarrow> string" where
  "sampleFmt2 x =
     (if x = 1 then ''1.00''
      else if x = 3 / 2 then ''1.50''
      else if x = 5 / 2 then ''2.50''
      else ''0.00'')"

text \<open>
  Sample query executions: two polls see RUNNING and the third sees FAILED with a
  reason; the first poll sees QUEUED, and no reason; one poll sees RUNNING and the
  second sees CANCELLED, and no reason.
\<close>

definition sampleStatus :: "nat \<Rightarrow> GetQueryExecutionResult" where
  "sampleStatus i =
     (if i < 2 then GetQueryExecutionOutput (Some ''RUNNING'') None
      else GetQueryExecutionOutput (Some ''FAILED'') (Some ''SYNTAX_ERROR''))"

definition sampleQueuedStatus :: "nat \<Rightarrow> GetQueryExecutionResult" where
  "sampleQueuedStatus i = GetQueryExecutionOutput (Some ''QUEUED'') None"

definition sampleQueued :: athena where
  "sampleQueued input =
     \<lparr> StartQueryExecution = Inr ''id-4'', GetQueryExecution = sampleQueuedStatus,
       ResultPages = [], GetQueryResultsPagesErr = None \<rparr>"

definition sampleCancelledStatus :: "nat \<Rightarrow> GetQueryExecutionResult" where
  "sampleCancelledStatus i =
     (if i < 1 then GetQueryExecutionOutput (Some ''RUNNING'') None
      else GetQueryExecutionOutput (Some ''CANCELLED'') None)"

definition sampleCancelled :: athena where
  "sampleCancelled input =
     \<lparr> StartQueryExecution = Inr ''id-5'', GetQueryExecution = sampleCancelledStatus,
       ResultPages = [], GetQueryResultsPagesErr = None \<rparr>"

definition sampleFailing :: athena where
  "sampleFailing input =
     \<lparr> StartQueryExecution = Inr ''id-1'', GetQueryExecution = sampleStatus,
       ResultPages = [], GetQueryResultsPagesErr = None \<rparr>"

text \<open>
  A sample execution that succeeds after one RUNNING poll, with a result set on two
  pages and one nil cell.
\<close>

definition sampleSucceededStatus :: "nat \<Rightarrow> GetQueryExecutionResult" where
  "sampleSucceededStatus i =
     (if i < 1 then GetQueryExecutionOutput (Some ''RUNNING'') None
      else GetQueryExecutionOutput (Some ''SUCCEEDED'') None)"

definition sampleRectangular :: athena where
  "sampleRectangular input =
     \<lparr> StartQueryExecution = Inr ''id-2'', GetQueryExecution = sampleSucceededStatus,
       ResultPages =
         [[[Some ''service'', Some ''cost''], [Some ''EC2'', Some ''1'']],
          [[Some ''S3'', None], [Some ''RDS'', Some ''2'']]],
       GetQueryResultsPagesErr = None \<rparr>"

text \<open>A sample of \<^verbatim>\<open>strconv.FormatFloat\<close> with format E on the costs of the examples.\<close>

definition sampleFmtE :: "real \<Rightarrow> string" where
  "sampleFmtE x =
     (if x = 30 then ''3E+01''
      else if x = 70 then ''7E+01''
      else if x = 100 then ''1E+02''
      else ''0E+00'')"

section \<open>Properties of the conversion engine\<close>

subsection \<open>The manifest parser\<close>

lemma firsts_set: "set (firsts S xs) = set xs - S"
  by (induction xs arbitrary: S) auto

lemma firsts_distinct: "distinct (firsts S xs)"
  by (induction xs arbitrary: S) (auto simp: firsts_set)

lemma firsts_nth:
  "firsts S xs = map (\<lambda>i. xs ! i) (filter (\<lambda>i. xs ! i \<notin> S \<and> (\<forall>j<i. xs ! j \<noteq> xs ! i)) [0..<length xs])"
proof (induction xs arbitrary: S)
  case Nil
  then show ?case by simp
next
  case (Cons x xs)
  have up: "[0..<length (x # xs)] = 0 # map Suc [0..<length xs]"
    by (simp add: upt_conv_Cons map_Suc_upt del: upt_Suc)
  have all_Suc: "\<And>P i. (\<forall>j<Suc i. P j) = (P 0 \<and> (\<forall>j<i. P (Suc j)))"
    by (metis less_Suc_eq_0_disj)
  show ?case
    unfolding up
    by (simp add: Cons.IH filter_map comp_def all_Suc del: upt_Suc) (auto intro!: filter_cong arg_cong2[where f=map])
qed

lemma columnsLoop_fields:
  "CurColumnTypes (columnsLoop ul cols i seen c) = CurColumnTypes c
   \<and> fileConcurrency (columnsLoop ul cols i seen c) = fileConcurrency c
   \<and> CurFiles (columnsLoop ul cols i seen c) = CurFiles c"
  by (induction cols arbitrary: i seen c) (auto simp: Let_def)

lemma columnsLoop_CurColumns:
  "CurColumns (columnsLoop ul cols i seen c) =
     CurColumns c @
     map (\<lambda>n. columnMetadata n (case CurColumnTypes c n of Some ty \<Rightarrow> ty | None \<Rightarrow> asc ''UTF8''))
       (firsts (dom seen) (map (canonicalName ul) cols))"
  by (induction cols arbitrary: i seen c) (auto simp: Let_def)


lemma ex_less_Suc_split: "(\<exists>n<Suc N. P n) = (P 0 \<or> (\<exists>n<N. P (Suc n)))"
  by (metis less_Suc_eq_0_disj)

lemma columnsLoop_skipCols:
  "skipCols (columnsLoop ul cols i seen c) k =
     (if \<exists>n<length cols. k = i + 1 + int n
            \<and> (map (canonicalName ul) cols ! n \<in> dom seen
                \<or> (\<exists>j<n. map (canonicalName ul) cols ! j = map (canonicalName ul) cols ! n))
      then Some True else skipCols c k)"
proof (induction cols arbitrary: i seen c)
  case Nil
  then show ?case by simp
next
  case (Cons t cols)
  show ?case
  proof (cases "seen (canonicalName ul t) = None")
    case True
    then show ?thesis
      apply (simp add: Let_def Cons.IH ex_less_Suc_split del: ex_simps)
      apply (auto simp: domIff)
      done
  next
    case False
    then show ?thesis
      apply (simp add: Let_def Cons.IH ex_less_Suc_split)
      apply (auto simp: domIff)
      done
  qed
qed


lemma canonicalName_runes:
  "canonicalName ul t =
     map (\<lambda>r. if (97 \<le> unicode_ToLower ul r \<and> unicode_ToLower ul r \<le> 122)
                  \<or> (48 \<le> unicode_ToLower ul r \<and> unicode_ToLower ul r \<le> 57)
                  \<or> unicode_ToLower ul r = 47
               then unicode_ToLower ul r else 95)
       (fst t @ 47 # snd t)"
  by (auto simp: canonicalName_def strings_ToLower_def strings_Map_def allowedRune_def asc_def Let_def)

lemma ParseCur_Inr:
  "ParseCur ul (Inr mf) c =
     (None, (columnsLoop ul (columns mf) (- 1) Map.empty (c\<lparr>skipCols := Map.empty\<rparr>))
              \<lparr>CurFiles := CurFiles c @ reportKeys mf\<rparr>)"
  by (simp add: ParseCur_def Let_def columnsLoop_fields)

lemma ParseCur_skipCols:
  "skipCols (snd (ParseCur ul (Inr mf) c)) k =
     (if 0 \<le> k \<and> k < int (length (columns mf))
         \<and> (\<exists>j<nat k. map (canonicalName ul) (columns mf) ! j = map (canonicalName ul) (columns mf) ! nat k)
      then Some True else None)"
proof -
  have "(\<exists>n<length (columns mf). k = int n \<and> P n) = (0 \<le> k \<and> k < int (length (columns mf)) \<and> P (nat k))" for P
    by (metis nat_int nat_less_iff of_nat_0_le_iff int_nat_eq)
  then show ?thesis
    by (simp add: ParseCur_Inr columnsLoop_skipCols del: nth_map)
qed

lemma ParseCur_CurColumns:
  "CurColumns (snd (ParseCur ul (Inr mf) c)) =
     CurColumns c @
     map (\<lambda>i. columnMetadata (map (canonicalName ul) (columns mf) ! i)
                (case CurColumnTypes c (map (canonicalName ul) (columns mf) ! i) of
                   Some ty \<Rightarrow> ty | None \<Rightarrow> asc ''UTF8''))
       (filter (\<lambda>i. skipCols (snd (ParseCur ul (Inr mf) c)) (int i) = None) [0..<length (columns mf)])"
proof -
  have "filter (\<lambda>i. skipCols (snd (ParseCur ul (Inr mf) c)) (int i) = None) [0..<length (columns mf)]
      = filter (\<lambda>i. \<forall>j<i. map (canonicalName ul) (columns mf) ! j \<noteq> map (canonicalName ul) (columns mf) ! i) [0..<length (columns mf)]"
    by (rule filter_cong) (auto simp: ParseCur_skipCols)
  then show ?thesis
    by (simp add: ParseCur_Inr columnsLoop_CurColumns firsts_nth comp_def)
qed

lemma ParseCur_kept_distinct:
  "distinct (map (\<lambda>i. map (canonicalName ul) (columns mf) ! i)
       (filter (\<lambda>i. skipCols (snd (ParseCur ul (Inr mf) c)) (int i) = None) [0..<length (columns mf)]))"
proof -
  have "filter (\<lambda>i. skipCols (snd (ParseCur ul (Inr mf) c)) (int i) = None) [0..<length (columns mf)]
      = filter (\<lambda>i. \<forall>j<i. map (canonicalName ul) (columns mf) ! j \<noteq> map (canonicalName ul) (columns mf) ! i) [0..<length (columns mf)]"
    by (rule filter_cong) (auto simp: ParseCur_skipCols)
  then show ?thesis
    using firsts_distinct [of "{}" "map (canonicalName ul) (columns mf)"]
    by (simp add: firsts_nth)
qed


text \<open>
  Claim C3. \<^verbatim>\<open>ParseCur\<close> on a freshly constructed converter succeeds on every
  decoded manifest. The canonical name of a column is its \<^verbatim>\<open>category/name\<close>
  with every rune lowercased and every lowercased rune outside a to z, 0 to 9 and the
  slash replaced by an underscore (the capitals A to Z become small letters). A position
  is in the skip set exactly when an earlier position has the same canonical name; the
  emitted schema holds one entry for each position that is not skipped, in manifest
  order, and the canonical names of these entries are pairwise distinct.
\<close>

theorem ParseCur_canonical_names_unique:
  fixes ul :: "rune \<Rightarrow> rune" and mf :: manifest and sB sO dB dO :: gostring
  defines "c' \<equiv> snd (ParseCur ul (Inr mf) (NewCurConvert sB sO dB dO))"
  defines "names \<equiv> map (canonicalName ul) (columns mf)"
  defines "kept \<equiv> filter (\<lambda>i. skipCols c' (int i) = None) [0..<length names]"
  shows "fst (ParseCur ul (Inr mf) (NewCurConvert sB sO dB dO)) = None
    \<and> (\<forall>t. canonicalName ul t =
          map (\<lambda>r. if (97 \<le> unicode_ToLower ul r \<and> unicode_ToLower ul r \<le> 122)
                       \<or> (48 \<le> unicode_ToLower ul r \<and> unicode_ToLower ul r \<le> 57)
                       \<or> unicode_ToLower ul r = 47
                    then unicode_ToLower ul r else 95)
            (fst t @ 47 # snd t))
    \<and> (\<forall>r. 65 \<le> r \<and> r \<le> 90 \<longrightarrow> unicode_ToLower ul r = r + 32)
    \<and> (\<forall>k. skipCols c' k =
          (if 0 \<le> k \<and> k < int (length names) \<and> (\<exists>j<nat k. names ! j = names ! nat k)
           then Some True else None))
    \<and> CurColumns c' =
        map (\<lambda>i. columnMetadata (names ! i)
                   (case CurColumnTypes c' (names ! i) of Some ty \<Rightarrow> ty | None \<Rightarrow> asc ''UTF8''))
          kept
    \<and> distinct (map (\<lambda>i. names ! i) kept)"
proof -
  have types: "CurColumnTypes c' = CurColumnTypes (NewCurConvert sB sO dB dO)"
    by (simp add: c'_def ParseCur_Inr columnsLoop_fields)
  have cols0: "CurColumns (NewCurConvert sB sO dB dO) = []"
    by (simp add: NewCurConvert_def)
  have 1: "fst (ParseCur ul (Inr mf) (NewCurConvert sB sO dB dO)) = None"
    by (simp add: ParseCur_Inr)
  have 2: "\<forall>r. 65 \<le> r \<and> r \<le> 90 \<longrightarrow> unicode_ToLower ul r = r + 32"
    by (simp add: unicode_ToLower_def)
  have 3: "\<forall>k. skipCols c' k =
          (if 0 \<le> k \<and> k < int (length names) \<and> (\<exists>j<nat k. names ! j = names ! nat k)
           then Some True else None)"
    unfolding c'_def names_def by (simp add: ParseCur_skipCols del: nth_map)
  have 4: "CurColumns c' =
        map (\<lambda>i. columnMetadata (names ! i)
                   (case CurColumnTypes c' (names ! i) of Some ty \<Rightarrow> ty | None \<Rightarrow> asc ''UTF8''))
          kept"
    unfolding types unfolding c'_def names_def kept_def
    using ParseCur_CurColumns [of ul mf "NewCurConvert sB sO dB dO"]
    by (simp add: cols0 del: nth_map)
  have 5: "distinct (map (\<lambda>i. names ! i) kept)"
    unfolding c'_def names_def kept_def
    using ParseCur_kept_distinct [of ul mf "NewCurConvert sB sO dB dO"] by simp
  from 1 2 3 4 5 canonicalName_runes show ?thesis by blast
qed

lemma asc_eq_iff: "asc s = asc t \<longleftrightarrow> s = t"
  unfolding asc_def using inj_of_char [where ?'a = nat] by (simp add: inj_map_eq_map)

lemma scenario_names:
  "canonicalName (\<lambda>r. r) (asc ''a'', asc ''B'') = asc ''a/b''"
  "canonicalName (\<lambda>r. r) (asc ''a'', asc ''b'') = asc ''a/b''"
  "canonicalName (\<lambda>r. r) (asc ''lineItem'', asc ''UsageAmount'') = asc ''lineitem/usageamount''"
  "canonicalName (\<lambda>r. r) (asc ''resourceTags'', asc ''user:Name'') = asc ''resourcetags/user_name''"
  by (simp_all add: canonicalName_def strings_ToLower_def strings_Map_def allowedRune_def
        unicode_ToLower_def asc_def Let_def)

theorem ParseCur_canonical_names_unique_witness:
  "skipCols (snd (ParseCur (\<lambda>r. r)
       (Inr \<lparr>columns = [(asc ''a'', asc ''B''), (asc ''a'', asc ''b'')], reportKeys = []\<rparr>)
       (NewCurConvert [] [] [] []))) 1 = Some True
   \<and> skipCols (snd (ParseCur (\<lambda>r. r)
       (Inr \<lparr>columns = [(asc ''a'', asc ''B''), (asc ''a'', asc ''b'')], reportKeys = []\<rparr>)
       (NewCurConvert [] [] [] []))) 0 = None
   \<and> CurColumns (snd (ParseCur (\<lambda>r. r)
       (Inr \<lparr>columns = [(asc ''a'', asc ''B''), (asc ''a'', asc ''b'')], reportKeys = []\<rparr>)
       (NewCurConvert [] [] [] []))) = [columnMetadata (asc ''a/b'') (asc ''UTF8'')]
   \<and> canonicalName (\<lambda>r. r) (asc ''a'', asc ''B'') = asc ''a/b''
   \<and> unicode_ToLower (\<lambda>r. r) 66 = 98"
proof -
  note T = ParseCur_canonical_names_unique
    [of "\<lambda>r. r" "\<lparr>columns = [(asc ''a'', asc ''B''), (asc ''a'', asc ''b'')], reportKeys = []\<rparr>" "[]" "[]" "[]" "[]"]
  note sk = T [THEN conjunct2, THEN conjunct2, THEN conjunct2, THEN conjunct1, rule_format]
  note lw = T [THEN conjunct2, THEN conjunct2, THEN conjunct1, rule_format, of 66]
  have s1: "skipCols (snd (ParseCur (\<lambda>r. r)
       (Inr \<lparr>columns = [(asc ''a'', asc ''B''), (asc ''a'', asc ''b'')], reportKeys = []\<rparr>)
       (NewCurConvert [] [] [] []))) 1 = Some True"
    by (subst sk) (simp add: scenario_names)
  have s0: "skipCols (snd (ParseCur (\<lambda>r. r)
       (Inr \<lparr>columns = [(asc ''a'', asc ''B''), (asc ''a'', asc ''b'')], reportKeys = []\<rparr>)
       (NewCurConvert [] [] [] []))) 0 = None"
    by (subst sk) simp
  have cc: "CurColumns (snd (ParseCur (\<lambda>r. r)
       (Inr \<lparr>columns = [(asc ''a'', asc ''B''), (asc ''a'', asc ''b'')], reportKeys = []\<rparr>)
       (NewCurConvert [] [] [] []))) = [columnMetadata (asc ''a/b'') (asc ''UTF8'')]"
    by (simp add: ParseCur_def NewCurConvert_def scenario_names Let_def asc_eq_iff) blast
  from s1 s0 cc lw show ?thesis by (simp add: scenario_names)
qed


lemma NewCurConvert_CurColumnTypes:
  "CurColumnTypes (NewCurConvert sB sO dB dO) n =
     (if n \<in> set [asc ''lineitem/usageamount'', asc ''lineitem/normalizationfactor'',
                   asc ''lineitem/normalizedusageamount'', asc ''lineitem/unblendedrate'',
                   asc ''lineitem/unblendedcost'', asc ''lineitem/blendedrate'',
                   asc ''lineitem/blendedcost'', asc ''pricing/publicondemandcost'',
                   asc ''pricing/publicondemandrate'',
                   asc ''reservation/normalizedunitsperreservation'',
                   asc ''reservation/totalreservednormalizedunits'',
                   asc ''reservation/totalreservedunits'',
                   asc ''reservation/unitsperreservation'']
      then Some (asc ''DOUBLE'') else None)"
  (is "_ = (if n \<in> set ?tbl then _ else _)")
proof (cases "n \<in> set ?tbl")
  case True
  have "CurColumnTypes (NewCurConvert sB sO dB dO) k = Some (asc ''DOUBLE'')" if "k \<in> set ?tbl" for k
    using that unfolding set_simps insert_iff empty_iff
    by (elim disjE) (simp_all add: NewCurConvert_def asc_eq_iff)
  with True show ?thesis by simp
next
  case False
  then show ?thesis
    by (simp add: NewCurConvert_def)
qed

lemma columnMetadata_type_inj:
  "columnMetadata n t1 = columnMetadata n t2 \<Longrightarrow> t1 = t2"
  by (simp add: columnMetadata_def)

text \<open>
  Claim C4. The override table set up by \<^verbatim>\<open>NewCurConvert\<close> maps thirteen distinct
  canonical names to DOUBLE and nothing else. The schema entry \<^verbatim>\<open>ParseCur\<close> emits
  for a position that is not skipped has type DOUBLE when the canonical name of the
  position is one of the thirteen, and UTF8 in every other case; the two types differ,
  and an entry determines its type.
\<close>

theorem ParseCur_type_override:
  fixes ul :: "rune \<Rightarrow> rune" and mf :: manifest and sB sO dB dO :: gostring
  defines "c' \<equiv> snd (ParseCur ul (Inr mf) (NewCurConvert sB sO dB dO))"
  defines "names \<equiv> map (canonicalName ul) (columns mf)"
  defines "overrides \<equiv>
     [asc ''lineitem/usageamount'', asc ''lineitem/normalizationfactor'',
      asc ''lineitem/normalizedusageamount'', asc ''lineitem/unblendedrate'',
      asc ''lineitem/unblendedcost'', asc ''lineitem/blendedrate'',
      asc ''lineitem/blendedcost'', asc ''pricing/publicondemandcost'',
      asc ''pricing/publicondemandrate'',
      asc ''reservation/normalizedunitsperreservation'',
      asc ''reservation/totalreservednormalizedunits'',
      asc ''reservation/totalreservedunits'',
      asc ''reservation/unitsperreservation'']"
  shows "length overrides = 13 \<and> distinct overrides
    \<and> (\<forall>n. CurColumnTypes (NewCurConvert sB sO dB dO) n =
             (if n \<in> set overrides then Some (asc ''DOUBLE'') else None))
    \<and> CurColumns c' =
        map (\<lambda>i. columnMetadata (names ! i)
                   (if names ! i \<in> set overrides then asc ''DOUBLE'' else asc ''UTF8''))
          (filter (\<lambda>i. skipCols c' (int i) = None) [0..<length names])
    \<and> asc ''DOUBLE'' \<noteq> asc ''UTF8''
    \<and> (\<forall>n t1 t2. columnMetadata n t1 = columnMetadata n t2 \<longrightarrow> t1 = t2)"
proof -
  have 1: "length overrides = 13" by (simp add: overrides_def)
  have 2: "distinct overrides" by (simp add: overrides_def asc_eq_iff)
  have 3: "\<forall>n. CurColumnTypes (NewCurConvert sB sO dB dO) n =
             (if n \<in> set overrides then Some (asc ''DOUBLE'') else None)"
    unfolding overrides_def by (rule allI) (rule NewCurConvert_CurColumnTypes)
  have cols0: "CurColumns (NewCurConvert sB sO dB dO) = []"
    by (simp add: NewCurConvert_def)
  have ty: "(case CurColumnTypes (NewCurConvert sB sO dB dO) n of Some ty \<Rightarrow> ty | None \<Rightarrow> asc ''UTF8'')
      = (if n \<in> set overrides then asc ''DOUBLE'' else asc ''UTF8'')" for n
    using 3 by simp
  have 4: "CurColumns c' =
        map (\<lambda>i. columnMetadata (names ! i)
                   (if names ! i \<in> set overrides then asc ''DOUBLE'' else asc ''UTF8''))
          (filter (\<lambda>i. skipCols c' (int i) = None) [0..<length names])"
    unfolding c'_def names_def
    using ParseCur_CurColumns [of ul mf "NewCurConvert sB sO dB dO"]
    by (simp only: cols0 ty append_Nil length_map)
  have 5: "asc ''DOUBLE'' \<noteq> asc ''UTF8''" by (simp add: asc_eq_iff)
  from 1 2 3 4 5 columnMetadata_type_inj show ?thesis by blast
qed



theorem ParseCur_type_override_witness:
  "CurColumns (snd (ParseCur (\<lambda>r. r)
       (Inr \<lparr>columns = [(asc ''lineItem'', asc ''UsageAmount''), (asc ''lineItem'', asc ''ProductCode'')],
              reportKeys = []\<rparr>)
       (NewCurConvert [] [] [] []))) =
     [columnMetadata (asc ''lineitem/usageamount'') (asc ''DOUBLE''),
      columnMetadata (asc ''lineitem/productcode'') (asc ''UTF8'')]
   \<and> CurColumnTypes (NewCurConvert [] [] [] []) (asc ''lineitem/productcode'') = None
   \<and> CurColumnTypes (NewCurConvert [] [] [] []) (asc ''lineitem/usageamount'') = Some (asc ''DOUBLE'')"
proof -
  note T = ParseCur_type_override
    [of "[]" "[]" "[]" "[]" "\<lambda>r. r"
        "\<lparr>columns = [(asc ''lineItem'', asc ''UsageAmount''), (asc ''lineItem'', asc ''ProductCode'')], reportKeys = []\<rparr>"]
  note ty = T [THEN conjunct2, THEN conjunct2, THEN conjunct1, rule_format]
  note cc = T [THEN conjunct2, THEN conjunct2, THEN conjunct2, THEN conjunct1]
  have nm: "canonicalName (\<lambda>r. r) (asc ''lineItem'', asc ''UsageAmount'') = asc ''lineitem/usageamount''"
    "canonicalName (\<lambda>r. r) (asc ''lineItem'', asc ''ProductCode'') = asc ''lineitem/productcode''"
    by (simp_all add: canonicalName_def strings_ToLower_def strings_Map_def allowedRune_def
        unicode_ToLower_def asc_def Let_def)
  have sk: "skipCols (snd (ParseCur (\<lambda>r. r)
       (Inr \<lparr>columns = [(asc ''lineItem'', asc ''UsageAmount''), (asc ''lineItem'', asc ''ProductCode'')],
              reportKeys = []\<rparr>)
       (NewCurConvert [] [] [] []))) 0 = None"
    "skipCols (snd (ParseCur (\<lambda>r. r)
       (Inr \<lparr>columns = [(asc ''lineItem'', asc ''UsageAmount''), (asc ''lineItem'', asc ''ProductCode'')],
              reportKeys = []\<rparr>)
       (NewCurConvert [] [] [] []))) 1 = None"
    by (simp_all add: ParseCur_skipCols nm asc_eq_iff)
  have up: "[0..<2] = [0, Suc 0]" by (simp add: upt_rec)
  have c1: "CurColumnTypes (NewCurConvert [] [] [] []) (asc ''lineitem/productcode'') = None"
    by (subst ty) (simp add: asc_eq_iff)
  have c2: "CurColumnTypes (NewCurConvert [] [] [] []) (asc ''lineitem/usageamount'') = Some (asc ''DOUBLE'')"
    by (subst ty) (simp add: asc_eq_iff)
  have c3: "CurColumns (snd (ParseCur (\<lambda>r. r)
       (Inr \<lparr>columns = [(asc ''lineItem'', asc ''UsageAmount''), (asc ''lineItem'', asc ''ProductCode'')],
              reportKeys = []\<rparr>)
       (NewCurConvert [] [] [] []))) =
     [columnMetadata (asc ''lineitem/usageamount'') (asc ''DOUBLE''),
      columnMetadata (asc ''lineitem/productcode'') (asc ''UTF8'')]"
    by (subst cc) (simp add: nm sk up asc_eq_iff)
  from c1 c2 c3 show ?thesis by simp
qed

subsection \<open>File concurrency\<close>


text \<open>
  Claim C9. A freshly constructed converter has file concurrency 30.
  \<^verbatim>\<open>SetFileConcurrency\<close> accepts exactly the arguments 1 to 1000: inside the
  range it stores the argument and returns no error, outside it returns an error and
  leaves the converter (hence the configured concurrency) unchanged.
\<close>

theorem SetFileConcurrency_range:
  "fileConcurrency (NewCurConvert sB sO dB dO) = 30
   \<and> (1 \<le> n \<and> n \<le> 1000 \<longrightarrow>
        fst (SetFileConcurrency c n) = None
        \<and> fileConcurrency (snd (SetFileConcurrency c n)) = n)
   \<and> (n < 1 \<or> 1000 < n \<longrightarrow>
        fst (SetFileConcurrency c n) \<noteq> None
        \<and> snd (SetFileConcurrency c n) = c)
   \<and> (fst (SetFileConcurrency c n) = None \<longleftrightarrow> 1 \<le> n \<and> n \<le> 1000)"
  by (auto simp: SetFileConcurrency_def NewCurConvert_def)

theorem SetFileConcurrency_range_witness:
  "fst (SetFileConcurrency (NewCurConvert [] [] [] []) 1000) = None
   \<and> fileConcurrency (snd (SetFileConcurrency (NewCurConvert [] [] [] []) 1000)) = 1000
   \<and> fst (SetFileConcurrency (NewCurConvert [] [] [] []) 1001) \<noteq> None
   \<and> snd (SetFileConcurrency (NewCurConvert [] [] [] []) 1001) = NewCurConvert [] [] [] []
   \<and> fst (SetFileConcurrency (NewCurConvert [] [] [] []) 0) \<noteq> None
   \<and> fileConcurrency (snd (SetFileConcurrency (NewCurConvert [] [] [] []) 0)) = 30"
  using SetFileConcurrency_range [of "[]" "[]" "[]" "[]" 1000 "NewCurConvert [] [] [] []"]
        SetFileConcurrency_range [of "[]" "[]" "[]" "[]" 1001 "NewCurConvert [] [] [] []"]
        SetFileConcurrency_range [of "[]" "[]" "[]" "[]" 0 "NewCurConvert [] [] [] []"]
  by simp

section \<open>Properties of the attribution engine\<close>

subsection \<open>The tag resolver\<close>

lemma findExact_iff: "findExact v l \<longleftrightarrow> v \<in> set l"
  by (induction l) auto

lemma findRegex_iff: "findRegex re v l \<longleftrightarrow> (\<exists>p\<in>set l. \<exists>f. re p = Some f \<and> f v)"
  by (induction l) (auto split: option.splits)

lemma exactLoop_None: "(\<forall>r\<in>set m. v \<notin> set (Match r)) \<Longrightarrow> exactLoop v m = None"
  by (induction m) (auto simp: findExact_iff)

lemma exactLoop_first:
  "i < length m \<Longrightarrow> v \<in> set (Match (m ! i)) \<Longrightarrow> (\<forall>j<i. v \<notin> set (Match (m ! j)))
   \<Longrightarrow> exactLoop v m = Some (Value (m ! i))"
proof (induction m arbitrary: i)
  case Nil
  then show ?case by simp
next
  case (Cons r m)
  show ?case
  proof (cases i)
    case 0
    with Cons.prems show ?thesis by (simp add: findExact_iff)
  next
    case (Suc k)
    with Cons.prems have "v \<notin> set (Match r)" by auto
    moreover from Suc Cons.prems have "exactLoop v m = Some (Value (m ! k))"
      by (intro Cons.IH) auto
    ultimately show ?thesis using Suc by (simp add: findExact_iff)
  qed
qed

lemma regexLoop_None:
  "(\<forall>r\<in>set m. \<not> (\<exists>p\<in>set (Regex r). \<exists>f. re p = Some f \<and> f v)) \<Longrightarrow> regexLoop re v m = None"
  by (induction m) (auto simp: findRegex_iff)

lemma regexLoop_first:
  "i < length m \<Longrightarrow> (\<exists>p\<in>set (Regex (m ! i)). \<exists>f. re p = Some f \<and> f v)
   \<Longrightarrow> (\<forall>j<i. \<not> (\<exists>p\<in>set (Regex (m ! j)). \<exists>f. re p = Some f \<and> f v))
   \<Longrightarrow> regexLoop re v m = Some (Value (m ! i))"
proof (induction m arbitrary: i)
  case Nil
  then show ?case by simp
next
  case (Cons r m)
  show ?case
  proof (cases i)
    case 0
    with Cons.prems show ?thesis by (simp add: findRegex_iff)
  next
    case (Suc k)
    from Cons.prems(3) Suc have "\<not> (\<exists>p\<in>set (Regex ((r # m) ! 0)). \<exists>f. re p = Some f \<and> f v)"
      by blast
    then have "\<not> findRegex re v (Regex r)" by (simp add: findRegex_iff)
    moreover have "\<forall>j<k. \<not> (\<exists>p\<in>set (Regex (m ! j)). \<exists>f. re p = Some f \<and> f v)"
    proof (intro allI impI)
      fix j assume "j < k"
      then have "Suc j < i" using Suc by simp
      with Cons.prems(3) have "\<not> (\<exists>p\<in>set (Regex ((r # m) ! Suc j)). \<exists>f. re p = Some f \<and> f v)"
        by blast
      then show "\<not> (\<exists>p\<in>set (Regex (m ! j)). \<exists>f. re p = Some f \<and> f v)" by simp
    qed
    with Suc Cons.prems(1,2) have "regexLoop re v m = Some (Value (m ! k))"
      by (intro Cons.IH) simp_all
    ultimately show ?thesis using Suc by simp
  qed
qed

text \<open>
  Claim C1. For a cell value \<open>v\<close>, the rules \<open>m\<close> of an axis, a candidate column
  \<open>tag\<close> and a blacklist: the resolver returns the value of the first rule whose match
  list contains \<open>v\<close>; when no rule contains it, the value of the first rule one of whose
  patterns compiles and matches \<open>v\<close> (so an exact match in any rule wins over a regex
  match in any rule, and within a pass the earlier rule wins); when neither pass matches
  and a compiled blacklist pattern of the column matches \<open>v\<close>, the error NO MATCH,
  whether or not \<open>v\<close> is empty; otherwise \<open>v\<close> itself when it is not empty and the
  error NO MATCH when it is.
\<close>

theorem findTagMatch_priority:
  fixes re :: regexp_Compile and v :: string and m :: "Map_rule list"
    and tag :: string and bl :: "string \<rightharpoonup> string list"
  defines "exact \<equiv> \<lambda>r. v \<in> set (Match r)"
  defines "rx \<equiv> \<lambda>r. \<exists>p\<in>set (Regex r). \<exists>f. re p = Some f \<and> f v"
  defines "blocked \<equiv> \<exists>ps. bl tag = Some ps \<and> (\<exists>p\<in>set ps. \<exists>f. re p = Some f \<and> f v)"
  shows
    "(\<forall>i<length m. exact (m ! i) \<and> (\<forall>j<i. \<not> exact (m ! j))
        \<longrightarrow> findTagMatch re v m tag bl = Inr (Value (m ! i)))
   \<and> ((\<forall>r\<in>set m. \<not> exact r) \<longrightarrow>
        (\<forall>i<length m. rx (m ! i) \<and> (\<forall>j<i. \<not> rx (m ! j))
           \<longrightarrow> findTagMatch re v m tag bl = Inr (Value (m ! i))))
   \<and> ((\<forall>r\<in>set m. \<not> exact r \<and> \<not> rx r) \<and> blocked
        \<longrightarrow> findTagMatch re v m tag bl = Inl NoMatch)
   \<and> ((\<forall>r\<in>set m. \<not> exact r \<and> \<not> rx r) \<and> \<not> blocked \<and> v \<noteq> []
        \<longrightarrow> findTagMatch re v m tag bl = Inr v)
   \<and> ((\<forall>r\<in>set m. \<not> exact r \<and> \<not> rx r) \<and> \<not> blocked \<and> v = []
        \<longrightarrow> findTagMatch re v m tag bl = Inl NoMatch)"
proof -
  have bl_eq: "(case bl tag of Some tagblacklist \<Rightarrow> findRegex re v tagblacklist | None \<Rightarrow> False) = blocked"
    by (auto simp: blocked_def findRegex_iff split: option.splits)
  have 1: "findTagMatch re v m tag bl = Inr (Value (m ! i))"
    if "i < length m" "exact (m ! i)" "\<forall>j<i. \<not> exact (m ! j)" for i
    using exactLoop_first [of i m v] that by (simp add: findTagMatch_def exact_def)
  have 2: "findTagMatch re v m tag bl = Inr (Value (m ! i))"
    if "\<forall>r\<in>set m. \<not> exact r" "i < length m" "rx (m ! i)" "\<forall>j<i. \<not> rx (m ! j)" for i
    using exactLoop_None [of m v] regexLoop_first [of i m re v] that
    by (simp add: findTagMatch_def exact_def rx_def)
  have 3: "findTagMatch re v m tag bl =
      (if blocked then Inl NoMatch else if v \<noteq> [] then Inr v else Inl NoMatch)"
    if "\<forall>r\<in>set m. \<not> exact r \<and> \<not> rx r"
  proof -
    from that have e: "exactLoop v m = None"
      by (intro exactLoop_None) (simp add: exact_def)
    from that have g: "regexLoop re v m = None"
      unfolding rx_def by (intro regexLoop_None) blast
    show ?thesis by (simp add: findTagMatch_def e g bl_eq)
  qed
  have c1: "\<forall>i<length m. exact (m ! i) \<and> (\<forall>j<i. \<not> exact (m ! j))
        \<longrightarrow> findTagMatch re v m tag bl = Inr (Value (m ! i))"
    using 1 by blast
  have c2: "(\<forall>r\<in>set m. \<not> exact r) \<longrightarrow>
        (\<forall>i<length m. rx (m ! i) \<and> (\<forall>j<i. \<not> rx (m ! j))
           \<longrightarrow> findTagMatch re v m tag bl = Inr (Value (m ! i)))"
    using 2 by blast
  have c3: "(\<forall>r\<in>set m. \<not> exact r \<and> \<not> rx r) \<and> blocked
        \<longrightarrow> findTagMatch re v m tag bl = Inl NoMatch"
  proof
    assume h: "(\<forall>r\<in>set m. \<not> exact r \<and> \<not> rx r) \<and> blocked"
    then have "findTagMatch re v m tag bl =
      (if blocked then Inl NoMatch else if v \<noteq> [] then Inr v else Inl NoMatch)"
      by (intro 3) blast
    with h show "findTagMatch re v m tag bl = Inl NoMatch" by simp
  qed
  have c4: "(\<forall>r\<in>set m. \<not> exact r \<and> \<not> rx r) \<and> \<not> blocked \<and> v \<noteq> []
        \<longrightarrow> findTagMatch re v m tag bl = Inr v"
  proof
    assume h: "(\<forall>r\<in>set m. \<not> exact r \<and> \<not> rx r) \<and> \<not> blocked \<and> v \<noteq> []"
    then have "findTagMatch re v m tag bl =
      (if blocked then Inl NoMatch else if v \<noteq> [] then Inr v else Inl NoMatch)"
      by (intro 3) blast
    with h show "findTagMatch re v m tag bl = Inr v" by simp
  qed
  have c5: "(\<forall>r\<in>set m. \<not> exact r \<and> \<not> rx r) \<and> \<not> blocked \<and> v = []
        \<longrightarrow> findTagMatch re v m tag bl = Inl NoMatch"
  proof
    assume h: "(\<forall>r\<in>set m. \<not> exact r \<and> \<not> rx r) \<and> \<not> blocked \<and> v = []"
    then have "findTagMatch re v m tag bl =
      (if blocked then Inl NoMatch else if v \<noteq> [] then Inr v else Inl NoMatch)"
      by (intro 3) blast
    with h show "findTagMatch re v m tag bl = Inl NoMatch" by simp
  qed
  from c1 c2 c3 c4 c5 show ?thesis by (intro conjI)
qed


lemma sampleRegexp_simps:
  "sampleRegexp ''alpha.*'' = Some (containsStr ''alpha'')"
  "sampleRegexp ''^i-'' = Some (hasPrefix ''i-'')"
  "sampleRegexp ''('' = None"
  by (simp_all add: sampleRegexp_def)

theorem findTagMatch_priority_witness:
  "findTagMatch sampleRegexp ''alphabet''
     [\<lparr>Value = ''P'', Match = [], Regex = [''alpha.*'']\<rparr>,
      \<lparr>Value = ''Q'', Match = [''alphabet''], Regex = []\<rparr>] ''resourceid'' Map.empty = Inr ''Q''
   \<and> findTagMatch sampleRegexp ''alphabets''
     [\<lparr>Value = ''P'', Match = [], Regex = [''('', ''alpha.*'']\<rparr>,
      \<lparr>Value = ''Q'', Match = [''alphabet''], Regex = [''alpha.*'']\<rparr>] ''resourceid'' Map.empty = Inr ''P''
   \<and> findTagMatch sampleRegexp ''i-abc''
     [\<lparr>Value = ''Q'', Match = [''alphabet''], Regex = [''alpha.*'']\<rparr>] ''resourceid''
     [''resourceid'' \<mapsto> [''^i-'']] = Inl NoMatch
   \<and> findTagMatch sampleRegexp ''i-abc''
     [\<lparr>Value = ''Q'', Match = [''alphabet''], Regex = [''alpha.*'']\<rparr>] ''name''
     [''resourceid'' \<mapsto> [''^i-'']] = Inr ''i-abc''
   \<and> findTagMatch sampleRegexp []
     [\<lparr>Value = ''Q'', Match = [''alphabet''], Regex = [''alpha.*'']\<rparr>] ''name''
     [''resourceid'' \<mapsto> [''^i-'']] = Inl NoMatch"
proof -
  have 1: "findTagMatch sampleRegexp ''alphabet''
     [\<lparr>Value = ''P'', Match = [], Regex = [''alpha.*'']\<rparr>,
      \<lparr>Value = ''Q'', Match = [''alphabet''], Regex = []\<rparr>] ''resourceid'' Map.empty = Inr ''Q''"
    using findTagMatch_priority [of "[\<lparr>Value = ''P'', Match = [], Regex = [''alpha.*'']\<rparr>,
      \<lparr>Value = ''Q'', Match = [''alphabet''], Regex = []\<rparr>]" "''alphabet''" sampleRegexp "''resourceid''" Map.empty,
      THEN conjunct1, rule_format, of 1]
    by simp
  have 2: "findTagMatch sampleRegexp ''alphabets''
     [\<lparr>Value = ''P'', Match = [], Regex = [''('', ''alpha.*'']\<rparr>,
      \<lparr>Value = ''Q'', Match = [''alphabet''], Regex = [''alpha.*'']\<rparr>] ''resourceid'' Map.empty = Inr ''P''"
    using findTagMatch_priority [of "[\<lparr>Value = ''P'', Match = [], Regex = [''('', ''alpha.*'']\<rparr>,
      \<lparr>Value = ''Q'', Match = [''alphabet''], Regex = [''alpha.*'']\<rparr>]" "''alphabets''" sampleRegexp "''resourceid''" Map.empty,
      THEN conjunct2, THEN conjunct1]
    by (simp add: sampleRegexp_simps All_less_Suc)
  have 3: "findTagMatch sampleRegexp ''i-abc''
     [\<lparr>Value = ''Q'', Match = [''alphabet''], Regex = [''alpha.*'']\<rparr>] ''resourceid''
     [''resourceid'' \<mapsto> [''^i-'']] = Inl NoMatch"
    using findTagMatch_priority [of "[\<lparr>Value = ''Q'', Match = [''alphabet''], Regex = [''alpha.*'']\<rparr>]"
      "''i-abc''" sampleRegexp "''resourceid''" "[''resourceid'' \<mapsto> [''^i-'']]",
      THEN conjunct2, THEN conjunct2, THEN conjunct1]
    by (simp add: sampleRegexp_simps)
  have 4: "findTagMatch sampleRegexp ''i-abc''
     [\<lparr>Value = ''Q'', Match = [''alphabet''], Regex = [''alpha.*'']\<rparr>] ''name''
     [''resourceid'' \<mapsto> [''^i-'']] = Inr ''i-abc''"
    using findTagMatch_priority [of "[\<lparr>Value = ''Q'', Match = [''alphabet''], Regex = [''alpha.*'']\<rparr>]"
      "''i-abc''" sampleRegexp "''name''" "[''resourceid'' \<mapsto> [''^i-'']]",
      THEN conjunct2, THEN conjunct2, THEN conjunct2, THEN conjunct1]
    by (simp add: sampleRegexp_simps)
  have 5: "findTagMatch sampleRegexp []
     [\<lparr>Value = ''Q'', Match = [''alphabet''], Regex = [''alpha.*'']\<rparr>] ''name''
     [''resourceid'' \<mapsto> [''^i-'']] = Inl NoMatch"
    using findTagMatch_priority [of "[\<lparr>Value = ''Q'', Match = [''alphabet''], Regex = [''alpha.*'']\<rparr>]"
      "[]" sampleRegexp "''name''" "[''resourceid'' \<mapsto> [''^i-'']]",
      THEN conjunct2, THEN conjunct2, THEN conjunct2, THEN conjunct2]
    by (simp add: sampleRegexp_simps)
  from 1 2 3 4 5 show ?thesis by blast
qed

subsection \<open>Axis labels\<close>

lemma tagsLoop_None:
  "(\<forall>t\<in>set tgs. findTagMatch re (getv row t) m t bl = Inl NoMatch)
   \<Longrightarrow> tagsLoop re bl row m tgs = None"
  by (induction tgs) auto

lemma tagsLoop_first:
  "i < length tgs \<Longrightarrow> findTagMatch re (getv row (tgs ! i)) m (tgs ! i) bl = Inr x
   \<Longrightarrow> (\<forall>j<i. findTagMatch re (getv row (tgs ! j)) m (tgs ! j) bl = Inl NoMatch)
   \<Longrightarrow> tagsLoop re bl row m tgs = Some x"
proof (induction tgs arbitrary: i)
  case Nil
  then show ?case by simp
next
  case (Cons t tgs)
  show ?case
  proof (cases i)
    case 0
    with Cons.prems show ?thesis by simp
  next
    case (Suc k)
    from Cons.prems(3) Suc have h: "findTagMatch re (getv row ((t # tgs) ! 0)) m ((t # tgs) ! 0) bl = Inl NoMatch"
      by blast
    have "\<forall>j<k. findTagMatch re (getv row (tgs ! j)) m (tgs ! j) bl = Inl NoMatch"
    proof (intro allI impI)
      fix j assume "j < k"
      then have "Suc j < i" using Suc by simp
      with Cons.prems(3)
      have "findTagMatch re (getv row ((t # tgs) ! Suc j)) m ((t # tgs) ! Suc j) bl = Inl NoMatch"
        by blast
      then show "findTagMatch re (getv row (tgs ! j)) m (tgs ! j) bl = Inl NoMatch" by simp
    qed
    with Suc Cons.prems(1,2) have "tagsLoop re bl row m tgs = Some x"
      by (intro Cons.IH) simp_all
    with h show ?thesis by simp
  qed
qed

lemma tagMapLoop_eq:
  "tagMapLoop re bl row tms tags =
     tags @ map (\<lambda>tm. case tagsLoop re bl row (Map_rules tm) (Tags tm) of
                        Some v \<Rightarrow> v | None \<Rightarrow> ''Untagged'') tms"
  by (induction tms arbitrary: tags) (auto split: option.splits)

text \<open>
  Claim C8. The tags of a row are its service followed by one label per axis, in the
  order of the axes. The label of an axis is what the first of its candidate columns, in
  declared order, resolves to when every earlier candidate gave NO MATCH; when every
  candidate gives NO MATCH the label is \<^verbatim>\<open>Untagged\<close>. The composite key under which the
  cost of the row is added is these tags joined by commas.
\<close>

theorem processResults_axis_label:
  fixes re :: regexp_Compile and pf :: strconv_ParseFloat and c :: Config and row :: row
  defines "resolve \<equiv> \<lambda>tm t. findTagMatch re (getv row t) (Map_rules tm) t (TagBlacklist c)"
  defines "axes \<equiv> TagMap_list c"
  shows
    "length (rowTags re c row) = Suc (length axes)
   \<and> rowTags re c row ! 0 = getv row ''service''
   \<and> (\<forall>k<length axes.
        (\<forall>i<length (Tags (axes ! k)). \<forall>x.
            resolve (axes ! k) (Tags (axes ! k) ! i) = Inr x
            \<and> (\<forall>j<i. resolve (axes ! k) (Tags (axes ! k) ! j) = Inl NoMatch)
            \<longrightarrow> rowTags re c row ! Suc k = x)
        \<and> ((\<forall>t\<in>set (Tags (axes ! k)). resolve (axes ! k) t = Inl NoMatch)
            \<longrightarrow> rowTags re c row ! Suc k = ''Untagged''))
   \<and> (\<forall>f. pf (getv row ''cost'') = Some f \<longrightarrow>
        processResults re pf \<lparr>Rows = [row]\<rparr> c =
          \<lparr>tagCosts = [strings_Join (rowTags re c row) '','' \<mapsto> f], total = f\<rparr>)"
proof -
  have rt: "rowTags re c row =
      getv row ''service'' #
      map (\<lambda>tm. case tagsLoop re (TagBlacklist c) row (Map_rules tm) (Tags tm) of
                   Some v \<Rightarrow> v | None \<Rightarrow> ''Untagged'') axes"
    by (simp add: rowTags_def tagMapLoop_eq axes_def)
  have 1: "length (rowTags re c row) = Suc (length axes)" by (simp add: rt)
  have 2: "rowTags re c row ! 0 = getv row ''service''" by (simp add: rt)
  have 3: "rowTags re c row ! Suc k = x"
    if "k < length axes" "i < length (Tags (axes ! k))"
       "resolve (axes ! k) (Tags (axes ! k) ! i) = Inr x"
       "\<forall>j<i. resolve (axes ! k) (Tags (axes ! k) ! j) = Inl NoMatch" for k i x
  proof -
    have "tagsLoop re (TagBlacklist c) row (Map_rules (axes ! k)) (Tags (axes ! k)) = Some x"
      using that(2-4) unfolding resolve_def by (rule tagsLoop_first)
    with that(1) show ?thesis by (simp add: rt)
  qed
  have 4: "rowTags re c row ! Suc k = ''Untagged''"
    if "k < length axes" "\<forall>t\<in>set (Tags (axes ! k)). resolve (axes ! k) t = Inl NoMatch" for k
  proof -
    have "tagsLoop re (TagBlacklist c) row (Map_rules (axes ! k)) (Tags (axes ! k)) = None"
      using that(2) unfolding resolve_def by (rule tagsLoop_None)
    with that(1) show ?thesis by (simp add: rt)
  qed
  have 5: "processResults re pf \<lparr>Rows = [row]\<rparr> c =
          \<lparr>tagCosts = [strings_Join (rowTags re c row) '','' \<mapsto> f], total = f\<rparr>"
    if "pf (getv row ''cost'') = Some f" for f
    using that by (simp add: processResults_def Let_def getf_def)
  from 1 2 3 4 5 show ?thesis by blast
qed


theorem processResults_axis_label_witness:
  "rowTags sampleRegexp sampleConfig
      [''service'' \<mapsto> ''EC2'', ''cost'' \<mapsto> ''1'', ''env'' \<mapsto> ''i-abc'', ''name'' \<mapsto> ''web''] ! Suc 0 = ''web''
   \<and> rowTags sampleRegexp sampleConfig [''service'' \<mapsto> ''EC2'', ''cost'' \<mapsto> ''1''] ! Suc 0 = ''Untagged''
   \<and> rowTags sampleRegexp sampleConfig [''service'' \<mapsto> ''EC2'', ''cost'' \<mapsto> ''1''] ! 0 = ''EC2''
   \<and> length (rowTags sampleRegexp sampleConfig [''service'' \<mapsto> ''EC2'', ''cost'' \<mapsto> ''1'']) = 2
   \<and> processResults sampleRegexp sampleParseFloat
        \<lparr>Rows = [[''service'' \<mapsto> ''EC2'', ''cost'' \<mapsto> ''1'']]\<rparr> sampleConfig =
        \<lparr>tagCosts = [''EC2,Untagged'' \<mapsto> 1], total = 1\<rparr>"
proof -
  note T1 = processResults_axis_label [of sampleRegexp sampleConfig
      "[''service'' \<mapsto> ''EC2'', ''cost'' \<mapsto> ''1'', ''env'' \<mapsto> ''i-abc'', ''name'' \<mapsto> ''web'']" sampleParseFloat]
  note T2 = processResults_axis_label [of sampleRegexp sampleConfig
      "[''service'' \<mapsto> ''EC2'', ''cost'' \<mapsto> ''1'']" sampleParseFloat]
  have a: "rowTags sampleRegexp sampleConfig
      [''service'' \<mapsto> ''EC2'', ''cost'' \<mapsto> ''1'', ''env'' \<mapsto> ''i-abc'', ''name'' \<mapsto> ''web''] ! Suc 0 = ''web''"
    using T1 [THEN conjunct2, THEN conjunct2, THEN conjunct1]
    by (simp add: sampleConfig_def All_less_Suc findTagMatch_def getv_def sampleRegexp_simps)
  have b: "rowTags sampleRegexp sampleConfig [''service'' \<mapsto> ''EC2'', ''cost'' \<mapsto> ''1''] ! Suc 0 = ''Untagged''"
    using T2 [THEN conjunct2, THEN conjunct2, THEN conjunct1]
    by (simp add: sampleConfig_def All_less_Suc findTagMatch_def getv_def sampleRegexp_simps)
  have c: "rowTags sampleRegexp sampleConfig [''service'' \<mapsto> ''EC2'', ''cost'' \<mapsto> ''1''] ! 0 = ''EC2''"
    using T2 [THEN conjunct2, THEN conjunct1] by (simp add: getv_def)
  have d: "length (rowTags sampleRegexp sampleConfig [''service'' \<mapsto> ''EC2'', ''cost'' \<mapsto> ''1'']) = 2"
    using T2 [THEN conjunct1] by (simp add: sampleConfig_def)
  have l: "rowTags sampleRegexp sampleConfig [''service'' \<mapsto> ''EC2'', ''cost'' \<mapsto> ''1''] = [''EC2'', ''Untagged'']"
    using b c d by (simp add: list_eq_iff_nth_eq All_less_Suc numeral_2_eq_2)
  have e: "processResults sampleRegexp sampleParseFloat
        \<lparr>Rows = [[''service'' \<mapsto> ''EC2'', ''cost'' \<mapsto> ''1'']]\<rparr> sampleConfig =
        \<lparr>tagCosts = [''EC2,Untagged'' \<mapsto> 1], total = 1\<rparr>"
    using T2 [THEN conjunct2, THEN conjunct2, THEN conjunct2, rule_format, of 1]
    by (simp add: l getv_def sampleParseFloat_def)
  from a b c d e show ?thesis by blast
qed

subsection \<open>Rounding to float64 on concrete values\<close>

lemma exponent_down_eq:
  "1 \<le> x * 2 ^ k \<Longrightarrow> x * 2 ^ k < 2 \<Longrightarrow> k \<le> n \<Longrightarrow> exponent_down n x e = e - int k"
proof (induction n arbitrary: x k e)
  case 0
  then show ?case by simp
next
  case (Suc n)
  show ?case
  proof (cases k)
    case 0
    with Suc.prems show ?thesis by simp
  next
    case (Suc j)
    have p1: "(1::real) \<le> 2 ^ j" by simp
    from Suc Suc.prems(2) have lt: "x * 2 ^ j < 1" by simp
    have x1: "x < 1"
    proof (rule ccontr)
      assume "\<not> x < 1"
      then have "1 \<le> x" by simp
      with p1 have "1 * 1 \<le> x * 2 ^ j" by (intro mult_mono) simp_all
      with lt show False by simp
    qed
    have a: "1 \<le> x * 2 * 2 ^ j" using Suc Suc.prems(1) by (simp add: mult.assoc)
    have b: "x * 2 * 2 ^ j < 2" using Suc Suc.prems(2) by (simp add: mult.assoc)
    have c: "j \<le> n" using Suc Suc.prems(3) by simp
    have "exponent_down n (x * 2) (e - 1) = (e - 1) - int j"
      using a b c by (rule Suc.IH)
    with x1 Suc show ?thesis by simp
  qed
qed

lemma exponent_up_eq:
  "2 ^ k \<le> x \<Longrightarrow> x < 2 * 2 ^ k \<Longrightarrow> k \<le> n \<Longrightarrow> exponent_up n x e = e + int k"
proof (induction n arbitrary: x k e)
  case 0
  then show ?case by simp
next
  case (Suc n)
  show ?case
  proof (cases k)
    case 0
    with Suc.prems show ?thesis by simp
  next
    case (Suc j)
    have p1: "(1::real) \<le> 2 ^ j" by simp
    from Suc Suc.prems(1) have "2 * 2 ^ j \<le> x" by simp
    with p1 have x2: "2 \<le> x" by linarith
    have a: "2 ^ j \<le> x / 2" using Suc Suc.prems(1) by simp
    have b: "x / 2 < 2 * 2 ^ j" using Suc Suc.prems(2) by simp
    have c: "j \<le> n" using Suc Suc.prems(3) by simp
    have "exponent_up n (x / 2) (e + 1) = (e + 1) + int j"
      using a b c by (rule Suc.IH)
    with x2 Suc show ?thesis by simp
  qed
qed

text \<open>A number of magnitude in \<open>[2^(-k), 2^(1-k))\<close>, \<open>k > 0\<close>, is rounded to a multiple of \<open>2^(-k-52)\<close>.\<close>

lemma float64_below_one:
  assumes "1 \<le> \<bar>x\<bar> * 2 ^ k" and "\<bar>x\<bar> * 2 ^ k < 2" and "0 < k" and "k \<le> 1022"
  shows "float64 x = of_int (round_half_even (x * 2 ^ (k + 52))) / 2 ^ (k + 52)"
proof -
  have p2: "(2::real) \<le> 2 ^ k"
    using assms(3) by (cases k) simp_all
  have x1: "\<bar>x\<bar> < 1"
  proof (rule ccontr)
    assume "\<not> \<bar>x\<bar> < 1"
    then have "1 \<le> \<bar>x\<bar>" by simp
    with p2 have "1 * 2 \<le> \<bar>x\<bar> * 2 ^ k" by (intro mult_mono) simp_all
    with assms(2) show False by simp
  qed
  have "exponent_down 1022 \<bar>x\<bar> 0 = 0 - int k"
    using assms(1,2,4) by (rule exponent_down_eq)
  with x1 have e: "exponent64 x = - int k"
    by (simp add: exponent64_def)
  have p: "pow2 (- int k - 52) = 1 / 2 ^ (k + 52)"
    by (simp add: pow2_def nat_add_distrib)
  show ?thesis
    by (simp add: float64_def Let_def e p)
qed

text \<open>A number of magnitude in \<open>[2^k, 2^(k+1))\<close>, \<open>k \<le> 52\<close>, is rounded to a multiple of \<open>2^(k-52)\<close>.\<close>

lemma float64_from_one:
  assumes "2 ^ k \<le> \<bar>x\<bar>" and "\<bar>x\<bar> < 2 * 2 ^ k" and "k \<le> 52"
  shows "float64 x = of_int (round_half_even (x * 2 ^ (52 - k))) / 2 ^ (52 - k)"
proof -
  have "(1::real) \<le> 2 ^ k" by simp
  with assms(1) have x1: "1 \<le> \<bar>x\<bar>" by linarith
  from assms(3) have k: "k \<le> 1023" by simp
  have "exponent_up 1023 \<bar>x\<bar> 0 = 0 + int k"
    using assms(1,2) k by (rule exponent_up_eq)
  with x1 have e: "exponent64 x = int k"
    by (simp add: exponent64_def)
  have p: "pow2 (int k - 52) = 1 / 2 ^ (52 - k)"
    using assms(3) by (simp add: pow2_def nat_diff_distrib)
  show ?thesis
    by (simp add: float64_def Let_def e p)
qed

lemma float64_zero: "float64 0 = 0"
  by (simp add: float64_def Let_def round_half_even_def)

text \<open>The constant 0.01 and the decimal costs of the examples, as \<^verbatim>\<open>float64\<close>.\<close>

lemma cent_value: "float64 (1 / 100) = 5764607523034235 / 2 ^ 59"
  by (subst float64_below_one [where k = 7]) (simp_all add: round_half_even_def Let_def)

lemma float64_0015: "float64 (15 / 1000) = 1080863910568919 / 2 ^ 56"
  by (subst float64_below_one [where k = 7]) (simp_all add: round_half_even_def Let_def)

lemma float64_0006: "float64 (6 / 1000) = 3458764513820541 / 2 ^ 59"
  by (subst float64_below_one [where k = 8]) (simp_all add: round_half_even_def Let_def)

lemma float64_003: "float64 (3 / 100) = 1080863910568919 / 2 ^ 55"
  by (subst float64_below_one [where k = 6]) (simp_all add: round_half_even_def Let_def)

text \<open>Quotients by 0.01 and products with 0.01.\<close>

lemma div_0015: "f64_div (1080863910568919 / 2 ^ 56) (5764607523034235 / 2 ^ 59) = 3 / 2"
  unfolding f64_div_def
  by (subst float64_from_one [where k = 0]) (simp_all add: round_half_even_def Let_def)

lemma div_0006: "f64_div (3458764513820541 / 2 ^ 59) (5764607523034235 / 2 ^ 59) = 5404319552844595 / 2 ^ 53"
  unfolding f64_div_def
  by (subst float64_below_one [where k = 1]) (simp_all add: round_half_even_def Let_def)

lemma div_below_0025: "f64_div (7205759403792793 / 2 ^ 58) (5764607523034235 / 2 ^ 59) = 5629499534213119 / 2 ^ 51"
  unfolding f64_div_def
  by (subst float64_from_one [where k = 1]) (simp_all add: round_half_even_def Let_def)

lemma mul_below_0025: "f64_mul (7205759403792793 / 2 ^ 58) 100 = 5 / 2"
  unfolding f64_mul_def
  by (subst float64_from_one [where k = 1]) (simp_all add: round_half_even_def Let_def)

lemma below_0025_float64: "float64 (7205759403792793 / 2 ^ 58) = 7205759403792793 / 2 ^ 58"
  by (subst float64_below_one [where k = 6]) (simp_all add: round_half_even_def Let_def)

lemma div_1: "f64_div 1 (5764607523034235 / 2 ^ 59) = 100"
  unfolding f64_div_def
  by (subst float64_from_one [where k = 6]) (simp_all add: round_half_even_def Let_def)

lemma div_15: "f64_div (3 / 2) (5764607523034235 / 2 ^ 59) = 150"
  unfolding f64_div_def
  by (subst float64_from_one [where k = 7]) (simp_all add: round_half_even_def Let_def)

lemma div_25: "f64_div (5 / 2) (5764607523034235 / 2 ^ 59) = 250"
  unfolding f64_div_def
  by (subst float64_from_one [where k = 7]) (simp_all add: round_half_even_def Let_def)

lemma div_0: "f64_div 0 (5764607523034235 / 2 ^ 59) = 0"
  by (simp add: f64_div_def float64_zero)

lemma mul_0: "f64_mul 0 (5764607523034235 / 2 ^ 59) = 0"
  by (simp add: f64_mul_def float64_zero)

lemma mul_1: "f64_mul 1 (5764607523034235 / 2 ^ 59) = 5764607523034235 / 2 ^ 59"
  unfolding f64_mul_def
  by (subst float64_below_one [where k = 7]) (simp_all add: round_half_even_def Let_def)

lemma mul_2: "f64_mul 2 (5764607523034235 / 2 ^ 59) = 5764607523034235 / 2 ^ 58"
  unfolding f64_mul_def
  by (subst float64_below_one [where k = 6]) (simp_all add: round_half_even_def Let_def)

lemma mul_100: "f64_mul 100 (5764607523034235 / 2 ^ 59) = 1"
  unfolding f64_mul_def
  by (subst float64_from_one [where k = 0]) (simp_all add: round_half_even_def Let_def)

lemma mul_150: "f64_mul 150 (5764607523034235 / 2 ^ 59) = 3 / 2"
  unfolding f64_mul_def
  by (subst float64_from_one [where k = 0]) (simp_all add: round_half_even_def Let_def)

lemma mul_250: "f64_mul 250 (5764607523034235 / 2 ^ 59) = 5 / 2"
  unfolding f64_mul_def
  by (subst float64_from_one [where k = 1]) (simp_all add: round_half_even_def Let_def)

lemma div_3_100: "f64_div 3 100 = 1080863910568919 / 2 ^ 55"
  unfolding f64_div_def
  by (subst float64_below_one [where k = 6]) (simp_all add: round_half_even_def Let_def)

lemma math_Round_values:
  "math_Round 0 = 0" "math_Round 100 = 100" "math_Round 150 = 150" "math_Round 250 = 250"
  "math_Round (3 / 2) = 2" "math_Round (5 / 2) = 3"
  "math_Round (5404319552844595 / 2 ^ 53) = 1"
  "math_Round (5629499534213119 / 2 ^ 51) = 2"
  by (simp_all add: math_Round_def)


lemma roundCents_values:
  "roundCents 0 = 0" "roundCents 1 = 1" "roundCents (3 / 2) = 3 / 2" "roundCents (5 / 2) = 5 / 2"
  "roundCents (float64 (15 / 1000)) = f64_mul 2 (float64 (1 / 100))"
  "roundCents (7205759403792793 / 2 ^ 58) = f64_mul 2 (float64 (1 / 100))"
  "roundCents (float64 (6 / 1000)) = float64 (1 / 100)"
  by (simp_all only: roundCents_def cent_value float64_0015 float64_0006 div_0 div_1 div_15 div_25
        div_0015 div_0006 div_below_0025 math_Round_values mul_0 mul_1 mul_100 mul_150 mul_250)

lemma cent_less_two_cents: "float64 (1 / 100) < f64_mul 2 (float64 (1 / 100))"
  by (simp only: cent_value mul_2) simp

lemma cent_pos: "0 < float64 (1 / 100)"
  by (simp only: cent_value) simp

subsection \<open>The report\<close>

lemma printLoop_eq:
  "printLoop costs ks =
     map (\<lambda>k. (k, roundCents (getf costs k)))
       (filter (\<lambda>k. roundCents (getf costs k) > float64 (1 / 100)) ks)"
  by (induction ks) simp_all

lemma tagNamesLoop_eq:
  "tagNamesLoop vs acc = acc @ concat (map (\<lambda>v. [CHR 0x22] @ Name v @ [CHR 0x22] @ '','') vs)"
  by (induction vs arbitrary: acc) simp_all

lemma sort_order_unique:
  "distinct order \<Longrightarrow> set order = dom m \<Longrightarrow> sort order = sorted_list_of_set (dom m)"
  by (metis sorted_list_of_set_sort_remdups distinct_remdups_id)

lemma math_Round_int: "\<exists>n::int. math_Round x = of_int n"
  by (simp add: math_Round_def) (metis of_int_minus)

text \<open>
  Claim C5, as amended. Whatever order the map iteration visits the keys in,
  \<^verbatim>\<open>printResults\<close> writes the header, then one line per key in the sorted order of the
  keys (the lexicographic order of the strings over their byte values), then the
  separator and the total. The amount of a key is its cost divided by 0.01 in
  \<^verbatim>\<open>float64\<close>, rounded to the nearest integer, times 0.01 in \<^verbatim>\<open>float64\<close>; the
  line is written only when this amount is strictly greater than the constant 0.01.
  The output is the same for every iteration order.
\<close>

theorem printResults_sorted_rounded:
  fixes fmt2 :: "real \<Rightarrow> string" and order :: "string list" and r :: Results and c :: Config
  assumes "distinct order" and "set order = dom (tagCosts r)"
  defines "keys \<equiv> sorted_list_of_set (dom (tagCosts r))"
  defines "cent \<equiv> float64 (1 / 100)"
  defines "amount \<equiv> \<lambda>k. roundCents (getf (tagCosts r) k)"
  shows
    "sorted keys \<and> distinct keys \<and> set keys = dom (tagCosts r)
   \<and> (\<forall>a b :: string. a < b \<longleftrightarrow> (a, b) \<in> lexord {(x, y). (of_char x :: nat) < of_char y})
   \<and> (\<forall>x. roundCents x = float64 (math_Round (float64 (x / cent)) * cent))
   \<and> (\<forall>x. \<exists>n::int. roundCents x = float64 (of_int n * cent))
   \<and> printLoop (tagCosts r) (sort order) =
        map (\<lambda>k. (k, amount k)) (filter (\<lambda>k. amount k > cent) keys)
   \<and> printResults fmt2 order r c =
        ([CHR 0x22] @ ''service'' @ [CHR 0x22] @ '',''
           @ concat (map (\<lambda>v. [CHR 0x22] @ Name v @ [CHR 0x22] @ '','') (TagMap_list c))
           @ [CHR 0x22] @ ''amount'' @ [CHR 0x22] @ [CHR 0x0A])
        # map (\<lambda>k. k @ '','' @ fmt2 (amount k) @ [CHR 0x0A]) (filter (\<lambda>k. amount k > cent) keys)
        @ [''---------------------'' @ [CHR 0x0A],
           ''Total: '' @ fmt2 (roundCents (total r))]
   \<and> (\<forall>order'. distinct order' \<and> set order' = dom (tagCosts r)
        \<longrightarrow> printResults fmt2 order' r c = printResults fmt2 order r c)"
proof -
  have fin: "finite (dom (tagCosts r))"
    using assms(2) by (metis List.finite_set)
  have 1: "sorted keys \<and> distinct keys \<and> set keys = dom (tagCosts r)"
    using fin by (simp add: keys_def)
  have 2: "\<forall>a b :: string. a < b \<longleftrightarrow> (a, b) \<in> lexord {(x, y). (of_char x :: nat) < of_char y}"
    by (simp add: list_less_def less_char_def)
  have 3: "\<forall>x. roundCents x = float64 (math_Round (float64 (x / cent)) * cent)"
    by (simp add: roundCents_def f64_mul_def f64_div_def cent_def)
  have 4: "\<forall>x. \<exists>n::int. roundCents x = float64 (of_int n * cent)"
  proof
    fix x
    obtain n :: int where "math_Round (float64 (x / cent)) = of_int n"
      using math_Round_int by blast
    with 3 have "roundCents x = float64 (of_int n * cent)" by simp
    then show "\<exists>n::int. roundCents x = float64 (of_int n * cent)" ..
  qed
  have so: "sort order' = keys" if "distinct order'" "set order' = dom (tagCosts r)" for order'
    using that unfolding keys_def by (rule sort_order_unique)
  have 5: "printLoop (tagCosts r) (sort order) =
        map (\<lambda>k. (k, amount k)) (filter (\<lambda>k. amount k > cent) keys)"
    by (simp add: so [OF assms(1,2)] printLoop_eq amount_def cent_def)
  have pr: "printResults fmt2 order' r c =
        ([CHR 0x22] @ ''service'' @ [CHR 0x22] @ '',''
           @ concat (map (\<lambda>v. [CHR 0x22] @ Name v @ [CHR 0x22] @ '','') (TagMap_list c))
           @ [CHR 0x22] @ ''amount'' @ [CHR 0x22] @ [CHR 0x0A])
        # map (\<lambda>k. k @ '','' @ fmt2 (amount k) @ [CHR 0x0A]) (filter (\<lambda>k. amount k > cent) keys)
        @ [''---------------------'' @ [CHR 0x0A],
           ''Total: '' @ fmt2 (roundCents (total r))]"
    if "distinct order'" "set order' = dom (tagCosts r)" for order'
    unfolding printResults_def Let_def so [OF that] printLoop_eq tagNamesLoop_eq
    by (simp add: amount_def cent_def comp_def)
  have 7: "\<forall>order'. distinct order' \<and> set order' = dom (tagCosts r)
        \<longrightarrow> printResults fmt2 order' r c = printResults fmt2 order r c"
    using pr [OF assms(1,2)] pr by simp
  from 1 2 3 4 5 pr [OF assms(1,2)] 7 show ?thesis by (intro conjI) simp_all
qed

lemma sort_sample: "sort [''c'', ''a'', ''b''] = [''a'', ''b'', ''c'']"
  by simp

theorem printResults_sorted_rounded_witness:
  "distinct [''c'', ''a'', ''b'']
   \<and> set [''c'', ''a'', ''b''] = dom (tagCosts \<lparr>tagCosts = [''b'' \<mapsto> 3 / 2, ''a'' \<mapsto> 1, ''c'' \<mapsto> 0], total = 5 / 2\<rparr>)
   \<and> printResults sampleFmt2 [''c'', ''a'', ''b'']
        \<lparr>tagCosts = [''b'' \<mapsto> 3 / 2, ''a'' \<mapsto> 1, ''c'' \<mapsto> 0], total = 5 / 2\<rparr> sampleConfig =
      [[CHR 0x22] @ ''service'' @ [CHR 0x22] @ '','' @ [CHR 0x22] @ ''Env'' @ [CHR 0x22] @ '',''
         @ [CHR 0x22] @ ''amount'' @ [CHR 0x22] @ [CHR 0x0A],
       ''a,1.00'' @ [CHR 0x0A],
       ''b,1.50'' @ [CHR 0x0A],
       ''---------------------'' @ [CHR 0x0A],
       ''Total: 2.50'']"
proof -
  have d: "distinct [''c'', ''a'', ''b'']" by simp
  have s: "set [''c'', ''a'', ''b''] = dom (tagCosts \<lparr>tagCosts = [''b'' \<mapsto> 3 / 2, ''a'' \<mapsto> 1, ''c'' \<mapsto> 0], total = 5 / 2\<rparr>)"
    by auto
  have k: "sorted_list_of_set (dom [''b'' \<mapsto> 3 / 2 :: real, ''a'' \<mapsto> 1, ''c'' \<mapsto> 0]) = [''a'', ''b'', ''c'']"
    using sort_order_unique [of "[''c'', ''a'', ''b'']" "[''b'' \<mapsto> 3 / 2 :: real, ''a'' \<mapsto> 1, ''c'' \<mapsto> 0]"]
    by (simp only: sort_sample) auto
  have c1: "float64 (1 / 100) < 1" "float64 (1 / 100) * 2 < 3" "\<not> float64 (1 / 100) < 0"
    by (simp_all only: cent_value) simp_all
  note T = printResults_sorted_rounded [OF d s, of sampleFmt2 sampleConfig]
  have p: "printResults sampleFmt2 [''c'', ''a'', ''b'']
        \<lparr>tagCosts = [''b'' \<mapsto> 3 / 2, ''a'' \<mapsto> 1, ''c'' \<mapsto> 0], total = 5 / 2\<rparr> sampleConfig =
      [[CHR 0x22] @ ''service'' @ [CHR 0x22] @ '','' @ [CHR 0x22] @ ''Env'' @ [CHR 0x22] @ '',''
         @ [CHR 0x22] @ ''amount'' @ [CHR 0x22] @ [CHR 0x0A],
       ''a,1.00'' @ [CHR 0x0A],
       ''b,1.50'' @ [CHR 0x0A],
       ''---------------------'' @ [CHR 0x0A],
       ''Total: 2.50'']"
    by (subst T [THEN conjunct2, THEN conjunct2, THEN conjunct2, THEN conjunct2, THEN conjunct2,
                 THEN conjunct2, THEN conjunct2, THEN conjunct1])
       (simp add: k getf_def roundCents_values c1 sampleFmt2_def sampleConfig_def)
  from d s p show ?thesis by blast
qed

text \<open>
  The claim as stated fails, whether its formula \<open>round (x * 100) / 100\<close> is read in
  exact arithmetic or in \<^verbatim>\<open>float64\<close>. On the \<^verbatim>\<open>float64\<close> of 0.015 the code writes
  a line with the amount 2 \<times> 0.01, while the exact formula gives 0.01, which does not
  exceed 0.01. On the \<^verbatim>\<open>float64\<close> just below 0.025 the code writes the amount
  2 \<times> 0.01, while the formula evaluated in \<^verbatim>\<open>float64\<close> gives 0.03.
\<close>

theorem printResults_half_cent_counterexample:
  "printLoop [''k'' \<mapsto> float64 (15 / 1000)] [''k''] = [(''k'', f64_mul 2 (float64 (1 / 100)))]
   \<and> math_Round (float64 (15 / 1000) * 100) / 100 = 1 / 100
   \<and> 1 / 100 < f64_mul 2 (float64 (1 / 100))
   \<and> float64 (7205759403792793 / 2 ^ 58) = 7205759403792793 / 2 ^ 58
   \<and> printLoop [''k'' \<mapsto> 7205759403792793 / 2 ^ 58] [''k''] = [(''k'', f64_mul 2 (float64 (1 / 100)))]
   \<and> f64_div (math_Round (f64_mul (7205759403792793 / 2 ^ 58) 100)) 100 = float64 (3 / 100)
   \<and> f64_mul 2 (float64 (1 / 100)) < float64 (3 / 100)"
proof -
  have g1: "getf [''k'' \<mapsto> float64 (15 / 1000)] ''k'' = float64 (15 / 1000)"
    unfolding getf_def by (simp only: fun_upd_same option.case)
  have g2: "getf [''k'' \<mapsto> 7205759403792793 / 2 ^ 58] ''k'' = 7205759403792793 / 2 ^ 58"
    unfolding getf_def by (simp only: fun_upd_same option.case)
  have 1: "printLoop [''k'' \<mapsto> float64 (15 / 1000)] [''k''] = [(''k'', f64_mul 2 (float64 (1 / 100)))]"
    by (simp only: printLoop.simps g1 roundCents_values cent_less_two_cents if_True)
  have 2: "math_Round (float64 (15 / 1000) * 100) / 100 = 1 / 100"
    by (simp only: float64_0015) (simp add: math_Round_def)
  have 3: "1 / 100 < f64_mul 2 (float64 (1 / 100))"
    by (simp only: cent_value mul_2) simp
  have 4: "printLoop [''k'' \<mapsto> 7205759403792793 / 2 ^ 58] [''k''] = [(''k'', f64_mul 2 (float64 (1 / 100)))]"
    by (simp only: printLoop.simps g2 roundCents_values cent_less_two_cents if_True)
  have 5: "f64_div (math_Round (f64_mul (7205759403792793 / 2 ^ 58) 100)) 100 = float64 (3 / 100)"
    by (simp only: mul_below_0025 math_Round_values div_3_100 float64_003)
  have 6: "f64_mul 2 (float64 (1 / 100)) < float64 (3 / 100)"
    by (simp only: cent_value mul_2 float64_003) simp
  from 1 2 3 below_0025_float64 4 5 6 show ?thesis by (intro conjI)
qed

lemma resultRowsLoop_total:
  "total (resultRowsLoop re pf c rows r) =
     total r + (\<Sum>row\<leftarrow>rows. case pf (getv row ''cost'') of Some f \<Rightarrow> f | None \<Rightarrow> 0)"
  by (induction rows arbitrary: r) (auto simp: Let_def split: option.splits)

lemma Results_sel:
  "tagCosts \<lparr>tagCosts = m, total = t\<rparr> = m" "total \<lparr>tagCosts = m, total = t\<rparr> = t"
  by simp_all

lemma sample_elided:
  "processResults sampleRegexp sampleParseFloat
      \<lparr>Rows = [[''service'' \<mapsto> ''EC2'', ''cost'' \<mapsto> ''0.006'']]\<rparr> sampleConfig =
    \<lparr>tagCosts = [''EC2,Untagged'' \<mapsto> float64 (6 / 1000)], total = float64 (6 / 1000)\<rparr>"
  by (simp add: processResults_def Let_def getf_def getv_def sampleParseFloat_def rowTags_def
      sampleConfig_def findTagMatch_def sampleRegexp_simps)

text \<open>
  Claim C10. The total that \<^verbatim>\<open>printResults\<close> prints last is the rounded sum of the
  costs of all the rows whose cost parses, whether or not the line of their group is
  printed. There are inputs on which the amounts of the printed body lines sum to
  strictly less than the printed total: a single row of cost 0.006 prints no body line
  and the total 0.01.
\<close>

theorem printResults_total_all_rows:
  fixes re :: regexp_Compile and pf :: strconv_ParseFloat and resp :: AthenaResponse
    and c :: Config and fmt2 :: "real \<Rightarrow> string" and order :: "string list"
  shows
    "total (processResults re pf resp c) =
       (\<Sum>row\<leftarrow>Rows resp. case pf (getv row ''cost'') of Some f \<Rightarrow> f | None \<Rightarrow> 0)
   \<and> last (printResults fmt2 order (processResults re pf resp c) c) =
       ''Total: '' @ fmt2 (roundCents
          (\<Sum>row\<leftarrow>Rows resp. case pf (getv row ''cost'') of Some f \<Rightarrow> f | None \<Rightarrow> 0))
   \<and> (\<exists>(re0 :: regexp_Compile) (pf0 :: strconv_ParseFloat) resp0 c0 order0.
        distinct order0
        \<and> set order0 = dom (tagCosts (processResults re0 pf0 resp0 c0))
        \<and> printLoop (tagCosts (processResults re0 pf0 resp0 c0)) (sort order0) = []
        \<and> roundCents (total (processResults re0 pf0 resp0 c0)) = float64 (1 / 100)
        \<and> sum_list (map snd (printLoop (tagCosts (processResults re0 pf0 resp0 c0)) (sort order0)))
            < roundCents (total (processResults re0 pf0 resp0 c0)))"
proof -
  have 1: "total (processResults re pf resp c) =
       (\<Sum>row\<leftarrow>Rows resp. case pf (getv row ''cost'') of Some f \<Rightarrow> f | None \<Rightarrow> 0)"
    by (simp add: processResults_def resultRowsLoop_total)
  have 2: "last (printResults fmt2 order (processResults re pf resp c) c) =
       ''Total: '' @ fmt2 (roundCents
          (\<Sum>row\<leftarrow>Rows resp. case pf (getv row ''cost'') of Some f \<Rightarrow> f | None \<Rightarrow> 0))"
    unfolding printResults_def Let_def 1 by simp
  have g: "getf [''EC2,Untagged'' \<mapsto> float64 (6 / 1000)] ''EC2,Untagged'' = float64 (6 / 1000)"
    unfolding getf_def by (simp only: fun_upd_same option.case)
  have pl: "printLoop [''EC2,Untagged'' \<mapsto> float64 (6 / 1000)] [''EC2,Untagged''] = []"
    by (simp only: printLoop.simps g roundCents_values less_irrefl if_False)
  have srt: "sort [''EC2,Untagged''] = [''EC2,Untagged'']" by simp
  have a: "set [''EC2,Untagged''] = dom (tagCosts (processResults sampleRegexp sampleParseFloat
              \<lparr>Rows = [[''service'' \<mapsto> ''EC2'', ''cost'' \<mapsto> ''0.006'']]\<rparr> sampleConfig))"
    unfolding sample_elided by simp
  have b: "printLoop (tagCosts (processResults sampleRegexp sampleParseFloat
              \<lparr>Rows = [[''service'' \<mapsto> ''EC2'', ''cost'' \<mapsto> ''0.006'']]\<rparr> sampleConfig))
            (sort [''EC2,Untagged'']) = []"
    unfolding sample_elided Results_sel srt by (rule pl)
  have t: "roundCents (total (processResults sampleRegexp sampleParseFloat
              \<lparr>Rows = [[''service'' \<mapsto> ''EC2'', ''cost'' \<mapsto> ''0.006'']]\<rparr> sampleConfig))
            = float64 (1 / 100)"
    unfolding sample_elided Results_sel by (rule roundCents_values)
  have l: "sum_list (map snd (printLoop (tagCosts (processResults sampleRegexp sampleParseFloat
              \<lparr>Rows = [[''service'' \<mapsto> ''EC2'', ''cost'' \<mapsto> ''0.006'']]\<rparr> sampleConfig))
            (sort [''EC2,Untagged''])))
            < roundCents (total (processResults sampleRegexp sampleParseFloat
              \<lparr>Rows = [[''service'' \<mapsto> ''EC2'', ''cost'' \<mapsto> ''0.006'']]\<rparr> sampleConfig))"
    unfolding b t using cent_pos by simp
  have 3: "distinct [''EC2,Untagged'']
        \<and> set [''EC2,Untagged''] = dom (tagCosts (processResults sampleRegexp sampleParseFloat
              \<lparr>Rows = [[''service'' \<mapsto> ''EC2'', ''cost'' \<mapsto> ''0.006'']]\<rparr> sampleConfig))
        \<and> printLoop (tagCosts (processResults sampleRegexp sampleParseFloat
              \<lparr>Rows = [[''service'' \<mapsto> ''EC2'', ''cost'' \<mapsto> ''0.006'']]\<rparr> sampleConfig))
            (sort [''EC2,Untagged'']) = []
        \<and> roundCents (total (processResults sampleRegexp sampleParseFloat
              \<lparr>Rows = [[''service'' \<mapsto> ''EC2'', ''cost'' \<mapsto> ''0.006'']]\<rparr> sampleConfig))
            = float64 (1 / 100)
        \<and> sum_list (map snd (printLoop (tagCosts (processResults sampleRegexp sampleParseFloat
              \<lparr>Rows = [[''service'' \<mapsto> ''EC2'', ''cost'' \<mapsto> ''0.006'']]\<rparr> sampleConfig))
            (sort [''EC2,Untagged''])))
            < roundCents (total (processResults sampleRegexp sampleParseFloat
              \<lparr>Rows = [[''service'' \<mapsto> ''EC2'', ''cost'' \<mapsto> ''0.006'']]\<rparr> sampleConfig))"
    using a b t l by (intro conjI) simp_all
  from 1 2 3 show ?thesis by blast
qed

subsection \<open>The query driver\<close>

lemma pollLoop_running:
  "(\<forall>i<k. \<exists>rs. gqe (n + i) = GetQueryExecutionOutput (Some ''RUNNING'') rs)
   \<Longrightarrow> pollLoop gqe n slept = pollLoop gqe (n + k) (slept + 2 * k)"
proof (induction k arbitrary: n slept)
  case 0
  then show ?case by simp
next
  case (Suc k)
  from Suc.prems have "\<exists>rs. gqe (n + 0) = GetQueryExecutionOutput (Some ''RUNNING'') rs"
    by blast
  then obtain rs where r: "gqe n = GetQueryExecutionOutput (Some ''RUNNING'') rs" by auto
  have "\<forall>i<k. \<exists>rs. gqe (Suc n + i) = GetQueryExecutionOutput (Some ''RUNNING'') rs"
  proof (intro allI impI)
    fix i assume "i < k"
    then have "Suc i < Suc k" by simp
    with Suc.prems have "\<exists>rs. gqe (n + Suc i) = GetQueryExecutionOutput (Some ''RUNNING'') rs"
      by blast
    then show "\<exists>rs. gqe (Suc n + i) = GetQueryExecutionOutput (Some ''RUNNING'') rs" by simp
  qed
  then have "pollLoop gqe (Suc n) (slept + 2) = pollLoop gqe (Suc n + k) (slept + 2 + 2 * k)"
    by (rule Suc.IH)
  moreover have "pollLoop gqe n slept = pollLoop gqe (Suc n) (slept + 2)"
    by (subst pollLoop.simps) (simp add: r)
  ultimately show ?case by simp
qed

lemma pollLoop_leaves:
  assumes "\<forall>i<n. \<exists>rs. gqe i = GetQueryExecutionOutput (Some ''RUNNING'') rs"
    and "gqe n = GetQueryExecutionOutput (Some state) reason"
    and "state \<noteq> ''RUNNING''"
  shows "pollLoop gqe 0 0 = Some (Returns (Inr (state, reason)), n, 2 * n)"
proof -
  have "pollLoop gqe 0 0 = pollLoop gqe (0 + n) (0 + 2 * n)"
    using assms(1) by (intro pollLoop_running) simp
  also have "\<dots> = Some (Returns (Inr (state, reason)), n, 2 * n)"
    by (subst pollLoop.simps) (simp add: assms(2,3))
  finally show ?thesis .
qed

text \<open>
  When the query starts, the first \<open>n\<close> status calls answer RUNNING and call \<open>n\<close>
  answers a state other than RUNNING together with a reason, the polling loop makes
  exactly the calls 0 to \<open>n\<close>, sleeps 2 seconds after each RUNNING answer (2 \<open>n\<close>
  seconds in all) and leaves with that state and reason; when the state is not
  SUCCEEDED, \<^verbatim>\<open>sendQuery\<close> then returns no rows and an error that holds the state and
  the reason.
\<close>

lemma sendQuery_poll_state_error:
  fixes svc :: athena
  assumes "StartQueryExecution (svc (queryInput db sql account region loc)) = Inr qid"
    and "\<forall>i<n. \<exists>rs. GetQueryExecution (svc (queryInput db sql account region loc)) i
                      = GetQueryExecutionOutput (Some ''RUNNING'') rs"
    and "GetQueryExecution (svc (queryInput db sql account region loc)) n
           = GetQueryExecutionOutput (Some state) (Some why)"
    and "state \<noteq> ''RUNNING''"
  shows "pollLoop (GetQueryExecution (svc (queryInput db sql account region loc))) 0 0
           = Some (Returns (Inr (state, Some why)), n, 2 * n)
       \<and> (state \<noteq> ''SUCCEEDED'' \<longrightarrow>
            sendQuery svc db sql account region loc
              = Some (Returns (\<lparr>Rows = []\<rparr>, Some (QueryStateError state why))))"
proof -
  have p: "pollLoop (GetQueryExecution (svc (queryInput db sql account region loc))) 0 0
           = Some (Returns (Inr (state, Some why)), n, 2 * n)"
    using assms(2-4) by (rule pollLoop_leaves)
  show ?thesis
    by (simp add: p sendQuery_def Let_def assms(1))
qed

lemma sendQuery_poll_state_error_sample:
  "StartQueryExecution (sampleFailing (queryInput ''cur'' ''select 1'' ''123'' ''us-east-1'' [])) = Inr ''id-1''
   \<and> GetQueryExecution (sampleFailing (queryInput ''cur'' ''select 1'' ''123'' ''us-east-1'' [])) 0
        = GetQueryExecutionOutput (Some ''RUNNING'') None
   \<and> GetQueryExecution (sampleFailing (queryInput ''cur'' ''select 1'' ''123'' ''us-east-1'' [])) 1
        = GetQueryExecutionOutput (Some ''RUNNING'') None
   \<and> GetQueryExecution (sampleFailing (queryInput ''cur'' ''select 1'' ''123'' ''us-east-1'' [])) 2
        = GetQueryExecutionOutput (Some ''FAILED'') (Some ''SYNTAX_ERROR'')
   \<and> ''FAILED'' \<noteq> ''RUNNING''
   \<and> pollLoop (GetQueryExecution (sampleFailing (queryInput ''cur'' ''select 1'' ''123'' ''us-east-1'' []))) 0 0
        = Some (Returns (Inr (''FAILED'', Some ''SYNTAX_ERROR'')), 2, 4)
   \<and> sendQuery sampleFailing ''cur'' ''select 1'' ''123'' ''us-east-1'' []
        = Some (Returns (\<lparr>Rows = []\<rparr>, Some (QueryStateError ''FAILED'' ''SYNTAX_ERROR'')))"
proof -
  have a: "StartQueryExecution (sampleFailing (queryInput ''cur'' ''select 1'' ''123'' ''us-east-1'' [])) = Inr ''id-1''"
    by (simp add: sampleFailing_def)
  have b: "\<forall>i<2. \<exists>rs. GetQueryExecution (sampleFailing (queryInput ''cur'' ''select 1'' ''123'' ''us-east-1'' [])) i
                      = GetQueryExecutionOutput (Some ''RUNNING'') rs"
    by (simp add: sampleFailing_def sampleStatus_def)
  have c: "GetQueryExecution (sampleFailing (queryInput ''cur'' ''select 1'' ''123'' ''us-east-1'' [])) 2
        = GetQueryExecutionOutput (Some ''FAILED'') (Some ''SYNTAX_ERROR'')"
    by (simp add: sampleFailing_def sampleStatus_def)
  have d: "''FAILED'' \<noteq> ''RUNNING''" by simp
  from sendQuery_poll_state_error
      [where svc = sampleFailing and db = "''cur''" and sql = "''select 1''" and account = "''123''"
         and region = "''us-east-1''" and loc = "[]" and n = 2, OF a b c d]
    a c d
  show ?thesis by (simp add: sampleFailing_def sampleStatus_def)
qed


text \<open>
  Claim C6. The polling is as the claim says, and a state other than SUCCEEDED that
  comes with a reason gives the error the claim describes (the two facts above). The
  claim is for every query execution, and there the code falls short: it dereferences
  \<^verbatim>\<open>StateChangeReason\<close> without a test, so a status that leaves the loop in a state
  other than SUCCEEDED and carries no reason makes \<^verbatim>\<open>sendQuery\<close> panic, where the
  claim has it return an error. A first status QUEUED without a reason does so, and so
  does CANCELLED without a reason after a RUNNING poll.
\<close>

theorem sendQuery_nil_reason_panics:
  "StartQueryExecution (sampleQueued (queryInput ''cur'' ''select 1'' ''123'' ''us-east-1'' [])) = Inr ''id-4''
   \<and> GetQueryExecution (sampleQueued (queryInput ''cur'' ''select 1'' ''123'' ''us-east-1'' [])) 0
        = GetQueryExecutionOutput (Some ''QUEUED'') None
   \<and> sendQuery sampleQueued ''cur'' ''select 1'' ''123'' ''us-east-1'' [] = Some Panics
   \<and> GetQueryExecution (sampleCancelled (queryInput ''cur'' ''select 1'' ''123'' ''us-east-1'' [])) 0
        = GetQueryExecutionOutput (Some ''RUNNING'') None
   \<and> GetQueryExecution (sampleCancelled (queryInput ''cur'' ''select 1'' ''123'' ''us-east-1'' [])) 1
        = GetQueryExecutionOutput (Some ''CANCELLED'') None
   \<and> sendQuery sampleCancelled ''cur'' ''select 1'' ''123'' ''us-east-1'' [] = Some Panics"
proof -
  have q: "pollLoop sampleQueuedStatus 0 0 = Some (Returns (Inr (''QUEUED'', None)), 0, 0)"
    using pollLoop_leaves [of 0 sampleQueuedStatus "''QUEUED''" None]
    by (simp add: sampleQueuedStatus_def)
  have c: "pollLoop sampleCancelledStatus 0 0 = Some (Returns (Inr (''CANCELLED'', None)), 1, 2)"
    using pollLoop_leaves [of 1 sampleCancelledStatus "''CANCELLED''" None]
    by (simp add: sampleCancelledStatus_def)
  show ?thesis
    by (simp add: sendQuery_def Let_def sampleQueued_def sampleCancelled_def q c
        sampleQueuedStatus_def sampleCancelledStatus_def)
qed

lemma headerLoop_all:
  "None \<notin> set ds \<Longrightarrow> headerLoop ds acc = Returns (acc @ map the ds)"
proof (induction ds arbitrary: acc)
  case Nil
  then show ?case by simp
next
  case (Cons d ds)
  from Cons.prems obtain v where v: "d = Some v" by (cases d) auto
  from Cons.prems have "None \<notin> set ds" by simp
  then have "headerLoop ds (acc @ [v]) = Returns ((acc @ [v]) @ map the ds)"
    by (rule Cons.IH)
  then show ?case by (simp add: v)
qed

lemma dataLoop_skip:
  "snd (dataLoop cn ds j res) \<longleftrightarrow> None \<in> set (take (length cn - j) ds)"
proof (induction ds arbitrary: j res)
  case Nil
  then show ?case by simp
next
  case (Cons d ds)
  show ?case
  proof (cases "j < length cn")
    case True
    then have l: "length cn - j = Suc (length cn - Suc j)" by simp
    show ?thesis
      using True by (cases d) (simp_all add: l Cons.IH)
  next
    case False
    then show ?thesis by (simp add: Cons.IH)
  qed
qed

lemma map_upd_add_single: "m(k \<mapsto> v) ++ m' = m ++ ([k \<mapsto> v] ++ m')"
  by (rule ext) (simp add: map_add_def split: option.splits)

lemma dataLoop_result:
  "None \<notin> set (take (length cn - j) ds) \<Longrightarrow>
   fst (dataLoop cn ds j res) = res ++ map_of (rev (zip (drop j cn) (map the (take (length cn - j) ds))))"
proof (induction ds arbitrary: j res)
  case Nil
  then show ?case by simp
next
  case (Cons d ds)
  show ?case
  proof (cases "j < length cn")
    case True
    then have l: "length cn - j = Suc (length cn - Suc j)" by simp
    from True have dr: "drop j cn = cn ! j # drop (Suc j) cn"
      by (simp add: Cons_nth_drop_Suc)
    from Cons.prems l obtain v where v: "d = Some v" by (cases d) auto
    from Cons.prems l have "None \<notin> set (take (length cn - Suc j) ds)" by simp
    then have ih: "fst (dataLoop cn ds (Suc j) (res(cn ! j \<mapsto> v))) =
        res(cn ! j \<mapsto> v) ++ map_of (rev (zip (drop (Suc j) cn) (map the (take (length cn - Suc j) ds))))"
      by (rule Cons.IH)
    have "fst (dataLoop cn (d # ds) j res) = fst (dataLoop cn ds (Suc j) (res(cn ! j \<mapsto> v)))"
      using True by (simp add: v)
    also note ih
    also have "res(cn ! j \<mapsto> v) ++ map_of (rev (zip (drop (Suc j) cn) (map the (take (length cn - Suc j) ds))))
        = res ++ ([cn ! j \<mapsto> v] ++ map_of (rev (zip (drop (Suc j) cn) (map the (take (length cn - Suc j) ds)))))"
      by (rule map_upd_add_single)
    also have "[cn ! j \<mapsto> v] ++ map_of (rev (zip (drop (Suc j) cn) (map the (take (length cn - Suc j) ds))))
        = map_of (rev (zip (drop j cn) (map the (take (length cn - j) (d # ds)))))"
      by (simp add: l dr v)
    finally show ?thesis .
  next
    case False
    then show ?thesis using Cons.IH [of "Suc j" res] by simp
  qed
qed


lemma dataLoop_kept:
  assumes "cn \<noteq> []"
  shows "(case dataLoop cn data 0 Map.empty of (result, skip) \<Rightarrow> result \<noteq> Map.empty \<and> \<not> skip)
           \<longleftrightarrow> data \<noteq> [] \<and> None \<notin> set (take (length cn) data)"
proof (cases "None \<in> set (take (length cn) data)")
  case True
  then have "snd (dataLoop cn data 0 Map.empty)" by (simp add: dataLoop_skip)
  with True show ?thesis by (simp add: case_prod_beta)
next
  case False
  then have r: "fst (dataLoop cn data 0 Map.empty) = map_of (rev (zip cn (map the (take (length cn) data))))"
    using dataLoop_result [of cn 0 data Map.empty] by simp
  from False have k: "\<not> snd (dataLoop cn data 0 Map.empty)" by (simp add: dataLoop_skip)
  have "map_of (rev (zip cn (map the (take (length cn) data)))) = Map.empty \<longleftrightarrow> data = []"
    using assms by (cases cn; cases data) simp_all
  with False r k show ?thesis by (simp add: case_prod_beta)
qed

lemma pageRowsLoop_data:
  "cn \<noteq> [] \<Longrightarrow>
   pageRowsLoop rows cn acc =
     Returns (cn, acc @ map (\<lambda>data. map_of (rev (zip cn (map the (take (length cn) data)))))
                          (filter (\<lambda>data. data \<noteq> [] \<and> None \<notin> set (take (length cn) data)) rows))"
proof (induction rows arbitrary: acc)
  case Nil
  then show ?case by simp
next
  case (Cons data rows)
  from Cons.prems have len: "\<not> length cn < 1" by (cases cn) simp_all
  show ?case
  proof (cases "data \<noteq> [] \<and> None \<notin> set (take (length cn) data)")
    case True
    then have k: "case dataLoop cn data 0 Map.empty of (result, skip) \<Rightarrow> result \<noteq> Map.empty \<and> \<not> skip"
      using dataLoop_kept [OF Cons.prems, of data] by simp
    from True have r: "fst (dataLoop cn data 0 Map.empty) = map_of (rev (zip cn (map the (take (length cn) data))))"
      using dataLoop_result [of cn 0 data Map.empty] by simp
    from k r True show ?thesis
      by (simp add: Cons.prems Cons.IH [OF Cons.prems] case_prod_beta)
  next
    case False
    then have k: "\<not> (case dataLoop cn data 0 Map.empty of (result, skip) \<Rightarrow> result \<noteq> Map.empty \<and> \<not> skip)"
      using dataLoop_kept [OF Cons.prems, of data] by simp
    from k False show ?thesis
      by (simp add: Cons.prems Cons.IH [OF Cons.prems] case_prod_beta)
  qed
qed

lemma pageRowsLoop_append:
  "pageRowsLoop (xs @ ys) cn acc =
     (case pageRowsLoop xs cn acc of
        Panics \<Rightarrow> Panics
      | Returns (cn', acc') \<Rightarrow> pageRowsLoop ys cn' acc')"
  by (induction xs cn acc rule: pageRowsLoop.induct)
     (auto split: outcome.splits prod.splits)

lemma pagesLoop_concat:
  "pagesLoop pages cn acc = pageRowsLoop (concat pages) cn acc"
  by (induction pages arbitrary: cn acc)
     (auto simp: pageRowsLoop_append split: outcome.splits prod.splits)


text \<open>
  The rows returned for any result set of a succeeded query whose first row is a
  header with all its labels: every later row is decoded over the positions the header
  covers, and is left out when it has no field or a nil field at such a position.
\<close>

lemma sendQuery_rows_decoded:
  fixes svc :: athena
  assumes "StartQueryExecution (svc (queryInput db sql account region loc)) = Inr qid"
    and "\<forall>i<n. \<exists>rs. GetQueryExecution (svc (queryInput db sql account region loc)) i
                      = GetQueryExecutionOutput (Some ''RUNNING'') rs"
    and "GetQueryExecution (svc (queryInput db sql account region loc)) n
           = GetQueryExecutionOutput (Some ''SUCCEEDED'') rs"
    and "concat (ResultPages (svc (queryInput db sql account region loc))) = hdr # rest"
    and "hdr \<noteq> []" and "None \<notin> set hdr"
    and "GetQueryResultsPagesErr (svc (queryInput db sql account region loc)) = None"
  shows "sendQuery svc db sql account region loc =
           Some (Returns
             (\<lparr>Rows = map (\<lambda>data. Map.empty (map the hdr [\<mapsto>] map the (take (length hdr) data)))
                         (filter (\<lambda>data. data \<noteq> [] \<and> None \<notin> set (take (length hdr) data)) rest)\<rparr>,
              None))"
proof -
  let ?ex = "svc (queryInput db sql account region loc)"
  have p: "pollLoop (GetQueryExecution ?ex) 0 0 = Some (Returns (Inr (''SUCCEEDED'', rs)), n, 2 * n)"
    using assms(2,3) by (rule pollLoop_leaves) simp
  have h: "headerLoop hdr [] = Returns (map the hdr)"
    using headerLoop_all [OF assms(6), of "[]"] by simp
  have ne: "map the hdr \<noteq> []" using assms(5) by simp
  have "pagesLoop (ResultPages ?ex) [] [] = pageRowsLoop (hdr # rest) [] []"
    by (simp add: pagesLoop_concat assms(4))
  also have "\<dots> = pageRowsLoop rest (map the hdr) []"
    by (simp add: h)
  also have "\<dots> = Returns (map the hdr,
        map (\<lambda>data. map_of (rev (zip (map the hdr) (map the (take (length hdr) data)))))
            (filter (\<lambda>data. data \<noteq> [] \<and> None \<notin> set (take (length hdr) data)) rest))"
    using pageRowsLoop_data [OF ne, of rest "[]"] by simp
  finally have pg: "pagesLoop (ResultPages ?ex) [] [] = Returns (map the hdr,
        map (\<lambda>data. Map.empty (map the hdr [\<mapsto>] map the (take (length hdr) data)))
            (filter (\<lambda>data. data \<noteq> [] \<and> None \<notin> set (take (length hdr) data)) rest))"
    by (simp add: map_upds_def)
  show ?thesis
    by (simp add: sendQuery_def Let_def assms(1) assms(7) p pg)
qed


lemma pageRowsLoop_no_columns:
  "\<forall>data\<in>set rows. data = [] \<Longrightarrow> pageRowsLoop rows [] acc = Returns ([], acc)"
  by (induction rows) simp_all

text \<open>
  Claim C7. A result set is rectangular: its first row carries the column labels, and
  every row has one field per column. When the query succeeds, the first returned row
  is the header, on whatever page the later rows arrive, and every later row is decoded
  by position: each header label is bound to the field of the row at the position of
  the label. A row that contains a nil field is left out of the returned rows (as is a
  row of a result set with no column), every other row is returned, in order, and no
  error is returned.
\<close>

theorem sendQuery_rows_by_header:
  fixes svc :: athena
  assumes "StartQueryExecution (svc (queryInput db sql account region loc)) = Inr qid"
    and "\<forall>i<n. \<exists>rs. GetQueryExecution (svc (queryInput db sql account region loc)) i
                      = GetQueryExecutionOutput (Some ''RUNNING'') rs"
    and "GetQueryExecution (svc (queryInput db sql account region loc)) n
           = GetQueryExecutionOutput (Some ''SUCCEEDED'') rs"
    and "concat (ResultPages (svc (queryInput db sql account region loc))) = hdr # rest"
    and "None \<notin> set hdr"
    and "\<forall>data\<in>set rest. length data = length hdr"
    and "GetQueryResultsPagesErr (svc (queryInput db sql account region loc)) = None"
  shows "sendQuery svc db sql account region loc =
           Some (Returns
             (\<lparr>Rows = map (\<lambda>data. Map.empty (map the hdr [\<mapsto>] map the data))
                         (filter (\<lambda>data. data \<noteq> [] \<and> None \<notin> set data) rest)\<rparr>,
              None))"
proof (cases "hdr = []")
  case True
  let ?ex = "svc (queryInput db sql account region loc)"
  have p: "pollLoop (GetQueryExecution ?ex) 0 0 = Some (Returns (Inr (''SUCCEEDED'', rs)), n, 2 * n)"
    using assms(2,3) by (rule pollLoop_leaves) simp
  have e: "\<forall>data\<in>set (hdr # rest). data = []"
    using True assms(6) by simp
  have "pagesLoop (ResultPages ?ex) [] [] = pageRowsLoop (hdr # rest) [] []"
    by (simp add: pagesLoop_concat assms(4))
  also have "\<dots> = Returns ([], [])"
    using e by (rule pageRowsLoop_no_columns)
  finally have pg: "pagesLoop (ResultPages ?ex) [] [] = Returns ([], [])" .
  have f: "filter (\<lambda>data. data \<noteq> [] \<and> None \<notin> set data) rest = []"
    using e by (simp add: filter_empty_conv)
  show ?thesis
    by (simp add: sendQuery_def Let_def assms(1) assms(7) p pg f)
next
  case False
  have f: "filter (\<lambda>data. data \<noteq> [] \<and> None \<notin> set (take (length hdr) data)) rest
         = filter (\<lambda>data. data \<noteq> [] \<and> None \<notin> set data) rest"
    by (rule filter_cong) (use assms(6) in auto)
  have m: "map (\<lambda>data. Map.empty (map the hdr [\<mapsto>] map the (take (length hdr) data)))
             (filter (\<lambda>data. data \<noteq> [] \<and> None \<notin> set data) rest)
         = map (\<lambda>data. Map.empty (map the hdr [\<mapsto>] map the data))
             (filter (\<lambda>data. data \<noteq> [] \<and> None \<notin> set data) rest)"
    by (rule map_cong) (use assms(6) in auto)
  show ?thesis
    using sendQuery_rows_decoded
      [where svc = svc and db = db and sql = sql and account = account and region = region
         and loc = loc and n = n, OF assms(1,2,3,4) False assms(5,7)]
    by (simp only: f m)
qed

theorem sendQuery_rows_by_header_witness:
  "StartQueryExecution (sampleRectangular (queryInput ''cur'' ''select 1'' ''123'' ''us-east-1'' [])) = Inr ''id-2''
   \<and> GetQueryExecution (sampleRectangular (queryInput ''cur'' ''select 1'' ''123'' ''us-east-1'' [])) 0
        = GetQueryExecutionOutput (Some ''RUNNING'') None
   \<and> GetQueryExecution (sampleRectangular (queryInput ''cur'' ''select 1'' ''123'' ''us-east-1'' [])) 1
        = GetQueryExecutionOutput (Some ''SUCCEEDED'') None
   \<and> concat (ResultPages (sampleRectangular (queryInput ''cur'' ''select 1'' ''123'' ''us-east-1'' [])))
        = [Some ''service'', Some ''cost'']
          # [[Some ''EC2'', Some ''1''], [Some ''S3'', None], [Some ''RDS'', Some ''2'']]
   \<and> None \<notin> set [Some ''service'', Some ''cost'']
   \<and> length [Some ''EC2'', Some ''1''] = length [Some ''service'', Some ''cost'']
   \<and> length [Some ''S3'', None] = length [Some ''service'', Some ''cost'']
   \<and> length [Some ''RDS'', Some ''2''] = length [Some ''service'', Some ''cost'']
   \<and> None \<in> set [Some ''S3'', None]
   \<and> GetQueryResultsPagesErr (sampleRectangular (queryInput ''cur'' ''select 1'' ''123'' ''us-east-1'' [])) = None
   \<and> sendQuery sampleRectangular ''cur'' ''select 1'' ''123'' ''us-east-1'' [] =
        Some (Returns
          (\<lparr>Rows = [[''service'' \<mapsto> ''EC2'', ''cost'' \<mapsto> ''1''],
                    [''service'' \<mapsto> ''RDS'', ''cost'' \<mapsto> ''2'']]\<rparr>, None))"
proof -
  let ?ex = "sampleRectangular (queryInput ''cur'' ''select 1'' ''123'' ''us-east-1'' [])"
  have a: "StartQueryExecution ?ex = Inr ''id-2''"
    by (simp add: sampleRectangular_def)
  have b: "\<forall>i<1. \<exists>rs. GetQueryExecution ?ex i = GetQueryExecutionOutput (Some ''RUNNING'') rs"
    by (simp add: sampleRectangular_def sampleSucceededStatus_def)
  have c: "GetQueryExecution ?ex 1 = GetQueryExecutionOutput (Some ''SUCCEEDED'') None"
    by (simp add: sampleRectangular_def sampleSucceededStatus_def)
  have d: "concat (ResultPages ?ex) = [Some ''service'', Some ''cost'']
          # [[Some ''EC2'', Some ''1''], [Some ''S3'', None], [Some ''RDS'', Some ''2'']]"
    by (simp add: sampleRectangular_def)
  have f: "None \<notin> set [Some ''service'', Some ''cost'']" by simp
  have r: "\<forall>data\<in>set [[Some ''EC2'', Some ''1''], [Some ''S3'', None], [Some ''RDS'', Some ''2'']].
             length data = length [Some ''service'', Some ''cost'']"
    by simp
  have g: "GetQueryResultsPagesErr ?ex = None"
    by (simp add: sampleRectangular_def)
  from sendQuery_rows_by_header
      [where svc = sampleRectangular and db = "''cur''" and sql = "''select 1''" and account = "''123''"
         and region = "''us-east-1''" and loc = "[]" and n = 1, OF a b c d f r g]
    a c d f g
  show ?thesis by (simp add: sampleRectangular_def sampleSucceededStatus_def)
qed

subsection \<open>Redistribution of the reserved-instance fees\<close>

lemma usageAmount_pos: "usageAmount pf row = Some u \<Longrightarrow> u > 0"
  by (auto simp: usageAmount_def split: option.splits if_splits)

lemma getf_upd: "getf (m(k \<mapsto> v)) s = (if s = k then v else getf m s)"
  by (simp add: getf_def)

lemma getf_empty: "getf Map.empty s = 0"
  by (simp add: getf_def)

lemma riCostLoop_getf:
  "getf (riCostLoop pf rows m) s =
     (if filter (\<lambda>row. getv row ''service'' = s \<and> pf (getv row ''cost'') \<noteq> None) rows = []
      then getf m s
      else the (pf (getv (last (filter (\<lambda>row. getv row ''service'' = s \<and> pf (getv row ''cost'') \<noteq> None) rows)) ''cost'')))"
  by (induction rows arbitrary: m) (auto simp: getf_upd split: option.splits)

lemma riUsageLoop_getf:
  "getf (riUsageLoop pf rows m) s =
     getf m s + (\<Sum>row\<leftarrow>filter (\<lambda>row. getv row ''service'' = s) rows.
                   case usageAmount pf row of Some u \<Rightarrow> u | None \<Rightarrow> 0)"
  by (induction rows arbitrary: m) (auto simp: getf_upd split: option.splits)

lemma riRowsLoop_eq:
  "riRowsLoop pf fmtE us cs rows tagRows =
     tagRows @ map (\<lambda>row. case syntheticCost pf us cs row of
                             Some cost \<Rightarrow> row(''cost'' \<mapsto> fmtE cost)
                           | None \<Rightarrow> row) rows"
  by (induction rows arbitrary: tagRows) (simp_all add: Let_def)

lemma usage_sum_nonneg:
  "0 \<le> (\<Sum>row\<leftarrow>rows. case usageAmount pf row of Some u \<Rightarrow> u | None \<Rightarrow> (0::real))"
  by (induction rows) (auto split: option.splits dest: usageAmount_pos)

lemma usage_sum_pos:
  "row \<in> set rows \<Longrightarrow> usageAmount pf row \<noteq> None \<Longrightarrow>
   0 < (\<Sum>row\<leftarrow>rows. case usageAmount pf row of Some u \<Rightarrow> u | None \<Rightarrow> (0::real))"
proof (induction rows)
  case Nil
  then show ?case by simp
next
  case (Cons r rows)
  have nn: "0 \<le> (\<Sum>row\<leftarrow>rows. case usageAmount pf row of Some u \<Rightarrow> u | None \<Rightarrow> (0::real))"
    by (rule usage_sum_nonneg)
  have hd: "0 \<le> (case usageAmount pf r of Some u \<Rightarrow> u | None \<Rightarrow> (0::real))"
    by (auto split: option.splits dest: usageAmount_pos)
  show ?case
  proof (cases "row = r")
    case True
    with Cons.prems obtain u where "usageAmount pf r = Some u" by auto
    with nn show ?thesis using usageAmount_pos [of pf r u] by simp
  next
    case False
    with Cons.prems have "row \<in> set rows" by simp
    then have "0 < (\<Sum>row\<leftarrow>rows. case usageAmount pf row of Some u \<Rightarrow> u | None \<Rightarrow> (0::real))"
      using Cons.prems(2) by (rule Cons.IH)
    with hd show ?thesis by simp
  qed
qed

lemma share_sum:
  "(\<Sum>row\<leftarrow>rows. case usageAmount pf row of Some u \<Rightarrow> u / T * C | None \<Rightarrow> (0::real)) =
   (\<Sum>row\<leftarrow>rows. case usageAmount pf row of Some u \<Rightarrow> u | None \<Rightarrow> 0) / T * C"
  by (induction rows) (auto simp: add_divide_distrib distrib_right split: option.splits)

lemma assigned_sum:
  "(\<Sum>row\<leftarrow>filter (\<lambda>row. getv row ''service'' = s) rows.
      case syntheticCost pf us cs row of Some cost \<Rightarrow> cost | None \<Rightarrow> 0) =
   (\<Sum>row\<leftarrow>filter (\<lambda>row. getv row ''service'' = s) rows.
      case usageAmount pf row of Some u \<Rightarrow> u | None \<Rightarrow> 0) / getf us s * getf cs s"
proof -
  have "(\<Sum>row\<leftarrow>filter (\<lambda>row. getv row ''service'' = s) rows.
      case syntheticCost pf us cs row of Some cost \<Rightarrow> cost | None \<Rightarrow> 0) =
    (\<Sum>row\<leftarrow>filter (\<lambda>row. getv row ''service'' = s) rows.
      case usageAmount pf row of Some u \<Rightarrow> u / getf us s * getf cs s | None \<Rightarrow> 0)"
    by (rule arg_cong [where f = sum_list], rule map_cong)
       (auto simp: syntheticCost_def split: option.splits)
  then show ?thesis by (simp only: share_sum)
qed


lemma parsed_sum:
  "(\<Sum>row\<leftarrow>filter P rows. case pf (getv row ''cost'') of Some f \<Rightarrow> f | None \<Rightarrow> (0::real)) =
   (\<Sum>row\<leftarrow>filter (\<lambda>row. P row \<and> pf (getv row ''cost'') \<noteq> None) rows. the (pf (getv row ''cost'')))"
  by (induction rows) auto

lemma riCostLoop_fee:
  assumes "length (filter (\<lambda>row. getv row ''service'' = s \<and> pf (getv row ''cost'') \<noteq> None) costRows) \<le> 1"
  shows "getf (riCostLoop pf costRows Map.empty) s =
     (\<Sum>row\<leftarrow>filter (\<lambda>row. getv row ''service'' = s) costRows.
        case pf (getv row ''cost'') of Some f \<Rightarrow> f | None \<Rightarrow> 0)"
proof (cases "filter (\<lambda>row. getv row ''service'' = s \<and> pf (getv row ''cost'') \<noteq> None) costRows")
  case Nil
  then show ?thesis
    by (simp only: riCostLoop_getf parsed_sum) (simp add: getf_empty)
next
  case (Cons x xs)
  with assms have "xs = []" by simp
  with Cons show ?thesis
    by (simp only: riCostLoop_getf parsed_sum) simp
qed

text \<open>
  Claim C2, as amended. The fee query reports one row per service. In exact arithmetic,
  \<^verbatim>\<open>processRIUsage\<close> appends every usage row to the tag rows, with the synthetic cost
  written into the rows it assigns one to; the usage total of a service is the sum of
  the usage amounts of its rows (the positive normalized amount, or else the positive
  amount); the synthetic cost of a row with a usage amount is that amount divided by
  the usage total of its service and multiplied by the fee reported for the service. For
  a service with at least one usage row that has a usage amount, the synthetic costs
  assigned to its rows sum to the total fee reported for it.
\<close>

theorem processRIUsage_redistribution:
  fixes pf :: strconv_ParseFloat and fmtE :: "real \<Rightarrow> string"
    and costRows usageRows :: "row list" and tagCost :: AthenaResponse and s :: string
  defines "riCostPerService \<equiv> riCostLoop pf costRows Map.empty"
  defines "riUsagePerService \<equiv> riUsageLoop pf usageRows Map.empty"
  defines "ofService \<equiv> filter (\<lambda>row. getv row ''service'' = s) usageRows"
  defines "fee \<equiv> (\<Sum>row\<leftarrow>filter (\<lambda>row. getv row ''service'' = s) costRows.
                      case pf (getv row ''cost'') of Some f \<Rightarrow> f | None \<Rightarrow> 0)"
  assumes "length (filter (\<lambda>row. getv row ''service'' = s \<and> pf (getv row ''cost'') \<noteq> None) costRows) \<le> 1"
  shows
    "processRIUsage pf fmtE (\<lparr>Rows = costRows\<rparr>, None) (\<lparr>Rows = usageRows\<rparr>, None) tagCost =
       (tagCost\<lparr>Rows := Rows tagCost @
           map (\<lambda>row. case syntheticCost pf riUsagePerService riCostPerService row of
                         Some cost \<Rightarrow> row(''cost'' \<mapsto> fmtE cost)
                       | None \<Rightarrow> row) usageRows\<rparr>, None)
   \<and> getf riUsagePerService s =
       (\<Sum>row\<leftarrow>ofService. case usageAmount pf row of Some u \<Rightarrow> u | None \<Rightarrow> 0)
   \<and> getf riCostPerService s = fee
   \<and> (\<forall>row\<in>set ofService. \<forall>u. usageAmount pf row = Some u \<longrightarrow>
         0 < u \<and> syntheticCost pf riUsagePerService riCostPerService row
                 = Some (u / getf riUsagePerService s * fee))
   \<and> ((\<exists>row\<in>set ofService. usageAmount pf row \<noteq> None) \<longrightarrow>
        (\<Sum>row\<leftarrow>ofService. case syntheticCost pf riUsagePerService riCostPerService row of
                               Some cost \<Rightarrow> cost | None \<Rightarrow> 0) = fee)"
proof -
  have 1: "processRIUsage pf fmtE (\<lparr>Rows = costRows\<rparr>, None) (\<lparr>Rows = usageRows\<rparr>, None) tagCost =
       (tagCost\<lparr>Rows := Rows tagCost @
           map (\<lambda>row. case syntheticCost pf riUsagePerService riCostPerService row of
                         Some cost \<Rightarrow> row(''cost'' \<mapsto> fmtE cost)
                       | None \<Rightarrow> row) usageRows\<rparr>, None)"
    by (simp add: processRIUsage_def Let_def riRowsLoop_eq riCostPerService_def riUsagePerService_def)
  have 2: "getf riUsagePerService s =
       (\<Sum>row\<leftarrow>ofService. case usageAmount pf row of Some u \<Rightarrow> u | None \<Rightarrow> 0)"
    by (simp add: riUsagePerService_def ofService_def riUsageLoop_getf getf_empty)
  have 3: "getf riCostPerService s = fee"
    unfolding riCostPerService_def fee_def using assms(5) by (rule riCostLoop_fee)
  have 4: "\<forall>row\<in>set ofService. \<forall>u. usageAmount pf row = Some u \<longrightarrow>
         0 < u \<and> syntheticCost pf riUsagePerService riCostPerService row
                 = Some (u / getf riUsagePerService s * fee)"
    using 3 by (auto simp: ofService_def syntheticCost_def dest: usageAmount_pos)
  have sum: "(\<Sum>row\<leftarrow>ofService. case syntheticCost pf riUsagePerService riCostPerService row of
                               Some cost \<Rightarrow> cost | None \<Rightarrow> 0) =
      getf riUsagePerService s / getf riUsagePerService s * getf riCostPerService s"
    using assigned_sum [where s = s and rows = usageRows and pf = pf
        and us = riUsagePerService and cs = riCostPerService] 2
    by (simp add: ofService_def)
  have 5: "(\<Sum>row\<leftarrow>ofService. case syntheticCost pf riUsagePerService riCostPerService row of
                               Some cost \<Rightarrow> cost | None \<Rightarrow> 0) = fee"
    if "\<exists>row\<in>set ofService. usageAmount pf row \<noteq> None"
  proof -
    from that obtain row where "row \<in> set ofService" "usageAmount pf row \<noteq> None" by blast
    then have "0 < getf riUsagePerService s"
      unfolding 2 by (rule usage_sum_pos)
    then show ?thesis by (simp add: sum 3)
  qed
  from 1 2 3 4 5 show ?thesis by blast
qed

theorem processRIUsage_redistribution_witness:
  "length (filter (\<lambda>row. getv row ''service'' = ''EC2'' \<and> sampleParseFloat (getv row ''cost'') \<noteq> None)
      [[''service'' \<mapsto> ''EC2'', ''cost'' \<mapsto> ''100'']]) = 1
   \<and> usageAmount sampleParseFloat [''service'' \<mapsto> ''EC2'', ''normalized_amount'' \<mapsto> ''30'', ''team'' \<mapsto> ''a''] = Some 30
   \<and> usageAmount sampleParseFloat
        [''service'' \<mapsto> ''EC2'', ''normalized_amount'' \<mapsto> ''0'', ''amount'' \<mapsto> ''70'', ''team'' \<mapsto> ''b''] = Some 70
   \<and> getf (riCostLoop sampleParseFloat [[''service'' \<mapsto> ''EC2'', ''cost'' \<mapsto> ''100'']] Map.empty) ''EC2'' = 100
   \<and> (\<Sum>row\<leftarrow>filter (\<lambda>row. getv row ''service'' = ''EC2'')
            [[''service'' \<mapsto> ''EC2'', ''normalized_amount'' \<mapsto> ''30'', ''team'' \<mapsto> ''a''],
             [''service'' \<mapsto> ''EC2'', ''normalized_amount'' \<mapsto> ''0'', ''amount'' \<mapsto> ''70'', ''team'' \<mapsto> ''b'']].
         case syntheticCost sampleParseFloat
                (riUsageLoop sampleParseFloat
                   [[''service'' \<mapsto> ''EC2'', ''normalized_amount'' \<mapsto> ''30'', ''team'' \<mapsto> ''a''],
                    [''service'' \<mapsto> ''EC2'', ''normalized_amount'' \<mapsto> ''0'', ''amount'' \<mapsto> ''70'', ''team'' \<mapsto> ''b'']]
                   Map.empty)
                (riCostLoop sampleParseFloat [[''service'' \<mapsto> ''EC2'', ''cost'' \<mapsto> ''100'']] Map.empty) row of
           Some cost \<Rightarrow> cost | None \<Rightarrow> 0) = 100
   \<and> processRIUsage sampleParseFloat sampleFmtE
        (\<lparr>Rows = [[''service'' \<mapsto> ''EC2'', ''cost'' \<mapsto> ''100'']]\<rparr>, None)
        (\<lparr>Rows = [[''service'' \<mapsto> ''EC2'', ''normalized_amount'' \<mapsto> ''30'', ''team'' \<mapsto> ''a''],
                   [''service'' \<mapsto> ''EC2'', ''normalized_amount'' \<mapsto> ''0'', ''amount'' \<mapsto> ''70'', ''team'' \<mapsto> ''b'']]\<rparr>,
         None)
        \<lparr>Rows = []\<rparr> =
      (\<lparr>Rows = [[''service'' \<mapsto> ''EC2'', ''normalized_amount'' \<mapsto> ''30'', ''team'' \<mapsto> ''a'', ''cost'' \<mapsto> ''3E+01''],
                 [''service'' \<mapsto> ''EC2'', ''normalized_amount'' \<mapsto> ''0'', ''amount'' \<mapsto> ''70'', ''team'' \<mapsto> ''b'',
                  ''cost'' \<mapsto> ''7E+01'']]\<rparr>,
       None)"
proof -
  have one: "length (filter (\<lambda>row. getv row ''service'' = ''EC2'' \<and> sampleParseFloat (getv row ''cost'') \<noteq> None)
      [[''service'' \<mapsto> ''EC2'', ''cost'' \<mapsto> ''100'']]) = 1"
    by (simp add: getv_def sampleParseFloat_def)
  then have le: "length (filter (\<lambda>row. getv row ''service'' = ''EC2'' \<and> sampleParseFloat (getv row ''cost'') \<noteq> None)
      [[''service'' \<mapsto> ''EC2'', ''cost'' \<mapsto> ''100'']]) \<le> 1"
    by simp
  note T = processRIUsage_redistribution
    [where pf = sampleParseFloat and fmtE = sampleFmtE and s = "''EC2''"
       and costRows = "[[''service'' \<mapsto> ''EC2'', ''cost'' \<mapsto> ''100'']]"
       and usageRows = "[[''service'' \<mapsto> ''EC2'', ''normalized_amount'' \<mapsto> ''30'', ''team'' \<mapsto> ''a''],
                        [''service'' \<mapsto> ''EC2'', ''normalized_amount'' \<mapsto> ''0'', ''amount'' \<mapsto> ''70'', ''team'' \<mapsto> ''b'']]"
       and tagCost = "\<lparr>Rows = []\<rparr>", OF le]
  have u1: "usageAmount sampleParseFloat [''service'' \<mapsto> ''EC2'', ''normalized_amount'' \<mapsto> ''30'', ''team'' \<mapsto> ''a''] = Some 30"
    by (simp add: usageAmount_def getv_def sampleParseFloat_def)
  have u2: "usageAmount sampleParseFloat
        [''service'' \<mapsto> ''EC2'', ''normalized_amount'' \<mapsto> ''0'', ''amount'' \<mapsto> ''70'', ''team'' \<mapsto> ''b''] = Some 70"
    by (simp add: usageAmount_def getv_def sampleParseFloat_def)
  have c: "getf (riCostLoop sampleParseFloat [[''service'' \<mapsto> ''EC2'', ''cost'' \<mapsto> ''100'']] Map.empty) ''EC2'' = 100"
    by (simp add: getv_def getf_def sampleParseFloat_def)
  have a: "(\<Sum>row\<leftarrow>filter (\<lambda>row. getv row ''service'' = ''EC2'')
            [[''service'' \<mapsto> ''EC2'', ''normalized_amount'' \<mapsto> ''30'', ''team'' \<mapsto> ''a''],
             [''service'' \<mapsto> ''EC2'', ''normalized_amount'' \<mapsto> ''0'', ''amount'' \<mapsto> ''70'', ''team'' \<mapsto> ''b'']].
         case syntheticCost sampleParseFloat
                (riUsageLoop sampleParseFloat
                   [[''service'' \<mapsto> ''EC2'', ''normalized_amount'' \<mapsto> ''30'', ''team'' \<mapsto> ''a''],
                    [''service'' \<mapsto> ''EC2'', ''normalized_amount'' \<mapsto> ''0'', ''amount'' \<mapsto> ''70'', ''team'' \<mapsto> ''b'']]
                   Map.empty)
                (riCostLoop sampleParseFloat [[''service'' \<mapsto> ''EC2'', ''cost'' \<mapsto> ''100'']] Map.empty) row of
           Some cost \<Rightarrow> cost | None \<Rightarrow> 0) = 100"
    using T [THEN conjunct2, THEN conjunct2, THEN conjunct2, THEN conjunct2]
    by (simp add: syntheticCost_def usageAmount_def getv_def getf_def sampleParseFloat_def)
  have b: "processRIUsage sampleParseFloat sampleFmtE
        (\<lparr>Rows = [[''service'' \<mapsto> ''EC2'', ''cost'' \<mapsto> ''100'']]\<rparr>, None)
        (\<lparr>Rows = [[''service'' \<mapsto> ''EC2'', ''normalized_amount'' \<mapsto> ''30'', ''team'' \<mapsto> ''a''],
                   [''service'' \<mapsto> ''EC2'', ''normalized_amount'' \<mapsto> ''0'', ''amount'' \<mapsto> ''70'', ''team'' \<mapsto> ''b'']]\<rparr>,
         None)
        \<lparr>Rows = []\<rparr> =
      (\<lparr>Rows = [[''service'' \<mapsto> ''EC2'', ''normalized_amount'' \<mapsto> ''30'', ''team'' \<mapsto> ''a'', ''cost'' \<mapsto> ''3E+01''],
                 [''service'' \<mapsto> ''EC2'', ''normalized_amount'' \<mapsto> ''0'', ''amount'' \<mapsto> ''70'', ''team'' \<mapsto> ''b'',
                  ''cost'' \<mapsto> ''7E+01'']]\<rparr>,
       None)"
    by (subst T [THEN conjunct1])
       (simp add: syntheticCost_def usageAmount_def getv_def getf_def sampleParseFloat_def sampleFmtE_def)
  from one u1 u2 c a b show ?thesis by (intro conjI)
qed

text \<open>
  The claim as stated fails: the service has a fee of 100 and one usage row, whose
  normalized amount and amount are both 0; no synthetic cost is assigned, the row is
  appended as it is, and the assigned costs sum to 0.
\<close>

theorem processRIUsage_fee_without_usage_counterexample:
  "getf (riCostLoop sampleParseFloat [[''service'' \<mapsto> ''EC2'', ''cost'' \<mapsto> ''100'']] Map.empty) ''EC2'' = 100
   \<and> (\<Sum>row\<leftarrow>filter (\<lambda>row. getv row ''service'' = ''EC2'')
            [[''service'' \<mapsto> ''EC2'', ''normalized_amount'' \<mapsto> ''0'', ''amount'' \<mapsto> ''0'']].
         case syntheticCost sampleParseFloat
                (riUsageLoop sampleParseFloat
                   [[''service'' \<mapsto> ''EC2'', ''normalized_amount'' \<mapsto> ''0'', ''amount'' \<mapsto> ''0'']] Map.empty)
                (riCostLoop sampleParseFloat [[''service'' \<mapsto> ''EC2'', ''cost'' \<mapsto> ''100'']] Map.empty) row of
           Some cost \<Rightarrow> cost | None \<Rightarrow> 0) = 0
   \<and> processRIUsage sampleParseFloat sampleFmtE
        (\<lparr>Rows = [[''service'' \<mapsto> ''EC2'', ''cost'' \<mapsto> ''100'']]\<rparr>, None)
        (\<lparr>Rows = [[''service'' \<mapsto> ''EC2'', ''normalized_amount'' \<mapsto> ''0'', ''amount'' \<mapsto> ''0'']]\<rparr>, None)
        \<lparr>Rows = []\<rparr> =
      (\<lparr>Rows = [[''service'' \<mapsto> ''EC2'', ''normalized_amount'' \<mapsto> ''0'', ''amount'' \<mapsto> ''0'']]\<rparr>, None)"
  by (simp add: processRIUsage_def Let_def syntheticCost_def usageAmount_def getv_def getf_def
      sampleParseFloat_def)


end
